theory Spec2Isabelle
  imports Main
begin

section \<open>SheetTable: loading a sheet's cells into the shared view state\<close>

text \<open>
  The component \<^verbatim>\<open>SheetTable\<close> (SheetTable.tsx) fetches the cells of the sheet at an
  address through chained promises and stores one flat array per sheet address.
  The embedding below follows the function \<^verbatim>\<open>load\<close> line by line.

  \<^item> Big numbers (\<^verbatim>\<open>BN\<close>) are unbounded integers, \<open>int\<close>.
  \<^item> The id of a cell is a JavaScript number. \<open>load\<close> hands it on as it is (to
    \<^verbatim>\<open>getCell\<close>, into the stored cell) and computes with it only through
    \<^verbatim>\<open>parseInt(cell.id.toString())\<close>, so the model keeps an id in its printed form, the
    string that \<^verbatim>\<open>toString()\<close> gives: \<open>''7''\<close>, \<open>''1.5''\<close>, \<open>''1e+21''\<close>, \<open>''NaN''\<close>.
  \<^item> A promise that settles is a value of \<open>failure + 'a\<close>: \<open>Inl\<close> is a rejection
    (or an exception thrown inside a promise callback), \<open>Inr\<close> the resolved value.
  \<^item> Every call to a collaborator (chain client, sheet contract, ABI lookup, the
    context setters, the router) is an \<open>event\<close>; \<open>load\<close> returns the events in
    the order in which it issues them, and \<open>apply_event\<close> gives their effect on the
    shared state.
  \<^item> The constants of \<^verbatim>\<open>config\<close> and \<^verbatim>\<open>utils\<close> are parameters (\<open>Config\<close>); the
    collaborators' answers are parameters (\<open>Env\<close>).
\<close>

subsection \<open>Data\<close>

type_synonym address = string
type_synonym BN = int
type_synonym FunctionAbi = string

text \<open>\<^verbatim>\<open>CellRendered\<close>: what \<^verbatim>\<open>renderCells\<close> yields for a cell. The fields \<^verbatim>\<open>id\<close>,
  \<^verbatim>\<open>value\<close> and \<^verbatim>\<open>error\<close> are written \<open>cell_id\<close>, \<open>cell_value\<close>, \<open>cell_error\<close>; \<open>cell_id\<close>
  is the printed form of the id.\<close>

record CellRendered =
  cell_id :: string
  owner :: BN
  cell_value :: BN
  cell_error :: "bool option"

text \<open>\<^verbatim>\<open>CellData\<close>: what \<^verbatim>\<open>getCell\<close> yields for a cell.\<close>

record CellData =
  contractAddress :: BN
  selector :: BN
  calldata :: "BN list"

text \<open>\<^verbatim>\<open>Cell\<close>: the two merged, with the optional ABI fragment.\<close>

record Cell =
  cell_id :: string
  owner :: BN
  cell_value :: BN
  cell_error :: "bool option"
  contractAddress :: BN
  selector :: BN
  calldata :: "BN list"
  abi :: "FunctionAbi option"

record Sheet =
  name :: string
  symbol :: string
  address :: address
  sheet_calldata :: "BN list option"

text \<open>The status of a sheet; \<^verbatim>\<open>updateSheetStatus\<close> takes a partial status, so every
  field is optional.\<close>

record Status =
  loading :: "bool option"
  error :: "bool option"
  message :: "string option"

record AppState =
  values_of :: "address \<rightharpoonup> Cell list"
  appStatus_sheets :: "address \<rightharpoonup> Status"
  onsheet_sheets :: "Sheet list"
  route :: string

datatype failure = Rejected | TypeError | RangeError | AssertionError

text \<open>The constants and helpers imported from \<^verbatim>\<open>config\<close>, \<^verbatim>\<open>utils/constants\<close> and
  \<^verbatim>\<open>utils/hexUtils\<close>. The helpers that decode a contract's answer may get
  \<^verbatim>\<open>undefined\<close> (the answer has no first element) and may throw.\<close>

record Config =
  GRID_SIZE :: nat
  N_COL :: nat
  N_ROW :: nat
  RC_BOUND :: BN
  bn2hex :: "BN \<Rightarrow> string"
  normalizeHexString :: "string option \<Rightarrow> failure + string"
  hex2str :: "string \<Rightarrow> failure + string"

text \<open>The sheet contract of \<^verbatim>\<open>useSheetContract\<close> and the other collaborators: how each
  of their promises settles.\<close>

record SheetContract =
  renderCells :: "failure + CellRendered list"
  getCell :: "string \<Rightarrow> failure + CellData"

record Env =
  contract :: "SheetContract option"
  callContract :: "address \<Rightarrow> string \<Rightarrow> failure + string list"
  getAbiForContract :: "string \<Rightarrow> failure + (string \<rightharpoonup> FunctionAbi)"

datatype event =
    UpdateSheetStatus address Status
  | CallContract address string
  | AppendSheet Sheet
  | RenderCells
  | GetCell string
  | GetAbiForContract string
  | SetValues address "Cell list"
  | Navigate string

subsection \<open>Effects of the setters on the shared state\<close>

text \<open>Modelled from the spec: \<^verbatim>\<open>updateSheetStatus\<close> of \<^verbatim>\<open>AppStatusContext\<close> is not
  in the source file. The spec has a status of three fields per sheet, "mutated
  throughout the fetch pipeline"; the call sites pass the fields to change. The
  fields given replace the stored ones, the others stay.\<close>

definition merge_status :: "Status \<Rightarrow> Status \<Rightarrow> Status" where
  "merge_status old patch =
     \<lparr>loading = (case loading patch of Some b \<Rightarrow> Some b | None \<Rightarrow> loading old),
      error = (case error patch of Some b \<Rightarrow> Some b | None \<Rightarrow> error old),
      message = (case message patch of Some m \<Rightarrow> Some m | None \<Rightarrow> message old)\<rparr>"

definition no_status :: Status where
  "no_status = \<lparr>loading = None, error = None, message = None\<rparr>"

definition updateSheetStatus :: "address \<Rightarrow> Status \<Rightarrow> AppState \<Rightarrow> AppState" where
  "updateSheetStatus a patch st =
     st\<lparr>appStatus_sheets := (appStatus_sheets st)
          (a \<mapsto> merge_status (case appStatus_sheets st a of Some s \<Rightarrow> s | None \<Rightarrow> no_status) patch)\<rparr>"

text \<open>\<^verbatim>\<open>setValues((prevValues) => ({...prevValues, [address]: cells}))\<close>\<close>

definition setValues :: "address \<Rightarrow> Cell list \<Rightarrow> AppState \<Rightarrow> AppState" where
  "setValues a cells st = st\<lparr>values_of := (values_of st)(a \<mapsto> cells)\<rparr>"

text \<open>Modelled from the spec: \<^verbatim>\<open>appendSheet\<close> of \<^verbatim>\<open>OnsheetContext\<close> is not in the
  source file; a sheet is "created on first visit to an address not already known".\<close>

definition appendSheet :: "Sheet \<Rightarrow> AppState \<Rightarrow> AppState" where
  "appendSheet s st = st\<lparr>onsheet_sheets := onsheet_sheets st @ [s]\<rparr>"

fun apply_event :: "event \<Rightarrow> AppState \<Rightarrow> AppState" where
  "apply_event (UpdateSheetStatus a patch) st = updateSheetStatus a patch st"
| "apply_event (AppendSheet s) st = appendSheet s st"
| "apply_event (SetValues a cells) st = setValues a cells st"
| "apply_event (Navigate path) st = st\<lparr>route := path\<rparr>"
| "apply_event (CallContract a entrypoint) st = st"
| "apply_event RenderCells st = st"
| "apply_event (GetCell i) st = st"
| "apply_event (GetAbiForContract h) st = st"

definition run_events :: "event list \<Rightarrow> AppState \<Rightarrow> AppState" where
  "run_events evs st = fold apply_event evs st"

subsection \<open>Promise.all\<close>

text \<open>\<^verbatim>\<open>Promise.all\<close> resolves with all the values, in order, when every promise
  resolves, and rejects when one rejects. When several reject, the reason it reports
  depends on timing; the model reports the first in list order. Nothing below depends
  on which reason is reported, only on whether there is one.\<close>

fun promise_all :: "(failure + 'a) list \<Rightarrow> failure + 'a list" where
  "promise_all [] = Inr []"
| "promise_all (Inl e # ps) = Inl e"
| "promise_all (Inr x # ps) =
     (case promise_all ps of Inl e \<Rightarrow> Inl e | Inr xs \<Rightarrow> Inr (x # xs))"

subsection \<open>Numbers and their printed form\<close>

text \<open>\<^verbatim>\<open>Number.prototype.toString\<close> on a non-negative integer below \<open>10 ^ 21\<close>: its decimal
  digits. (From \<open>10 ^ 21\<close> on JavaScript prints an exponent; the function is used for
  grid indices only, which are below \<open>2 ^ 32\<close>.)\<close>

definition digit_char :: "nat \<Rightarrow> char" where
  "digit_char d = ''0123456789'' ! d"

function toString :: "nat \<Rightarrow> string" where
  "toString n = (if n < 10 then [digit_char n] else toString (n div 10) @ [digit_char (n mod 10)])"
  by pat_completeness auto
termination
  by (relation "measure (\<lambda>n. n)") auto

declare toString.simps [simp del]

text \<open>\<^verbatim>\<open>parseInt(string)\<close> with no radix, after ECMAScript: leading white space is
  skipped, then an optional sign, then an optional \<^verbatim>\<open>0x\<close> (radix 16, else radix 10), then
  the longest run of digits of the radix is read; what follows is ignored. With no digit
  the result is \<^verbatim>\<open>NaN\<close>, here \<open>None\<close>. So \<open>''1.5''\<close> and \<open>''1e+21''\<close> give 1. The result is
  kept as an exact integer: JavaScript rounds it to a double, which changes no value
  below \<open>2 ^ 53\<close> and takes none from above it to below it. White space is the ASCII
  white space; a number's printed form has none.\<close>

definition is_whitespace :: "char \<Rightarrow> bool" where
  "is_whitespace ch =
     (ch \<in> set [CHR '' '', CHR 0x09, CHR 0x0A, CHR 0x0B, CHR 0x0C, CHR 0x0D])"

definition digit_value :: "char \<Rightarrow> nat option" where
  "digit_value =
     map_of
       [(CHR ''0'', 0), (CHR ''1'', 1), (CHR ''2'', 2), (CHR ''3'', 3), (CHR ''4'', 4),
        (CHR ''5'', 5), (CHR ''6'', 6), (CHR ''7'', 7), (CHR ''8'', 8), (CHR ''9'', 9),
        (CHR ''a'', 10), (CHR ''b'', 11), (CHR ''c'', 12), (CHR ''d'', 13), (CHR ''e'', 14),
        (CHR ''f'', 15), (CHR ''A'', 10), (CHR ''B'', 11), (CHR ''C'', 12), (CHR ''D'', 13),
        (CHR ''E'', 14), (CHR ''F'', 15)]"

definition is_digit :: "nat \<Rightarrow> char \<Rightarrow> bool" where
  "is_digit radix ch = (case digit_value ch of None \<Rightarrow> False | Some d \<Rightarrow> d < radix)"

definition digits_value :: "nat \<Rightarrow> string \<Rightarrow> nat" where
  "digits_value radix z =
     foldl (\<lambda>v ch. v * radix + (case digit_value ch of None \<Rightarrow> 0 | Some d \<Rightarrow> d)) 0 z"

definition parseInt :: "string \<Rightarrow> int option" where
  "parseInt inputString =
     (let s = dropWhile is_whitespace inputString;
          sign = (case s of ch # r \<Rightarrow> if ch = CHR ''-'' then - 1 else 1 | [] \<Rightarrow> (1 :: int));
          s = (case s of ch # r \<Rightarrow> if ch = CHR ''-'' \<or> ch = CHR ''+'' then r else s | [] \<Rightarrow> s);
          radix = (if take 2 s = ''0x'' \<or> take 2 s = ''0X'' then 16 else 10);
          s = (if radix = 16 then drop 2 s else s);
          z = takeWhile (is_digit radix) s
      in if z = [] then None else Some (sign * int (digits_value radix z)))"

subsection \<open>Placeholder cells\<close>

definition defaultRenderedCell :: "nat \<Rightarrow> CellRendered" where
  "defaultRenderedCell tokenId =
     \<lparr>CellRendered.cell_id = toString tokenId, owner = 0, cell_value = 0, cell_error = None\<rparr>"

definition defaultCellData :: "Config \<Rightarrow> nat \<Rightarrow> CellData" where
  "defaultCellData cfg tokenId =
     \<lparr>CellData.contractAddress = RC_BOUND cfg, selector = 0, calldata = []\<rparr>"

text \<open>The object spread \<^verbatim>\<open>{...cell, ..._cell}\<close> of a rendered cell and its data.\<close>

definition merge_cell :: "CellRendered \<Rightarrow> CellData \<Rightarrow> Cell" where
  "merge_cell cell cell' =
     \<lparr>cell_id = CellRendered.cell_id cell,
      owner = CellRendered.owner cell,
      cell_value = CellRendered.cell_value cell,
      cell_error = CellRendered.cell_error cell,
      contractAddress = CellData.contractAddress cell',
      selector = CellData.selector cell',
      calldata = CellData.calldata cell',
      abi = None\<rparr>"

definition default_cell :: "Config \<Rightarrow> nat \<Rightarrow> Cell" where
  "default_cell cfg i = merge_cell (defaultRenderedCell i) (defaultCellData cfg i)"

subsection \<open>The metadata lookup (lines 102 to 119)\<close>

definition status_message :: "string \<Rightarrow> Status" where
  "status_message m = \<lparr>loading = None, error = None, message = Some m\<rparr>"

definition metadata_calls :: "address \<Rightarrow> event list" where
  "metadata_calls a = [CallContract a ''name'', CallContract a ''symbol'']"

text \<open>\<^verbatim>\<open>hex2str(normalizeHexString(result.result[0]))\<close>\<close>

definition decode_result :: "Config \<Rightarrow> string list \<Rightarrow> failure + string" where
  "decode_result cfg result =
     (case normalizeHexString cfg (case result of [] \<Rightarrow> None | r # _ \<Rightarrow> Some r) of
        Inl e \<Rightarrow> Inl e
      | Inr h \<Rightarrow> hex2str cfg h)"

text \<open>The \<^verbatim>\<open>then\<close> callback of the metadata lookup. The promise has no rejection
  handler: when a call rejects or the decoding throws, nothing is done.\<close>

definition metadata_settled :: "Config \<Rightarrow> Env \<Rightarrow> address \<Rightarrow> event list" where
  "metadata_settled cfg env a =
     (case promise_all [callContract env a ''name'', callContract env a ''symbol''] of
        Inl e \<Rightarrow> []
      | Inr response \<Rightarrow>
          (case promise_all (map (decode_result cfg) response) of
             Inl e \<Rightarrow> []
           | Inr decoded \<Rightarrow>
               [AppendSheet \<lparr>name = decoded ! 0, symbol = decoded ! 1, address = a,
                              sheet_calldata = None\<rparr>]))"

subsection \<open>Fetching the cells (lines 120 to 139)\<close>

definition has_calldata :: "Sheet option \<Rightarrow> bool" where
  "has_calldata sheet = (case sheet of None \<Rightarrow> False | Some s \<Rightarrow> sheet_calldata s \<noteq> None)"

definition fetch_cell :: "SheetContract \<Rightarrow> CellRendered \<Rightarrow> failure + Cell" where
  "fetch_cell c cell =
     (case getCell c (CellRendered.cell_id cell) of
        Inl e \<Rightarrow> Inl e
      | Inr cell' \<Rightarrow> Inr (merge_cell cell cell'))"

text \<open>What the promise \<^verbatim>\<open>cells\<close> settles to, and the events of its callbacks.\<close>

definition fetched :: "SheetContract \<Rightarrow> Sheet option \<Rightarrow> failure + Cell list" where
  "fetched c sheet =
     (if has_calldata sheet then Inr []
      else case renderCells c of
             Inl e \<Rightarrow> Inl e
           | Inr renderedCells \<Rightarrow> promise_all (map (fetch_cell c) renderedCells))"

definition fetched_events :: "SheetContract \<Rightarrow> address \<Rightarrow> Sheet option \<Rightarrow> event list" where
  "fetched_events c a sheet =
     (if has_calldata sheet then []
      else case renderCells c of
             Inl e \<Rightarrow> []
           | Inr renderedCells \<Rightarrow>
               UpdateSheetStatus a (status_message ''Fetching cells metadata'') #
               map (\<lambda>cell. GetCell (CellRendered.cell_id cell)) renderedCells)"

subsection \<open>Building the grid and resolving the ABIs (lines 141 to 177)\<close>

text \<open>The \<^verbatim>\<open>reduce\<close> of line 145: an object keyed by \<^verbatim>\<open>parseInt(cell.id.toString())\<close>; a
  later cell replaces an earlier one with the same key. The key \<open>None\<close> is \<^verbatim>\<open>NaN\<close>.\<close>

definition cells_by_id :: "Cell list \<Rightarrow> (int option \<rightharpoonup> Cell)" where
  "cells_by_id cells =
     foldl (\<lambda>prev cell. prev(parseInt (cell_id cell) \<mapsto> cell)) Map.empty cells"

text \<open>\<^verbatim>\<open>Array.from(Array(n).keys())\<close>: an array length is below \<open>2 ^ 32\<close>.\<close>

definition Array_keys :: "nat \<Rightarrow> failure + nat list" where
  "Array_keys n = (if n < 2 ^ 32 then Inr [0..<n] else Inl RangeError)"

definition grid :: "Config \<Rightarrow> Cell list \<Rightarrow> failure + Cell list" where
  "grid cfg cells =
     (case Array_keys (GRID_SIZE cfg) of
        Inl e \<Rightarrow> Inl e
      | Inr keys \<Rightarrow>
          Inr (map (\<lambda>i. case cells_by_id cells (Some (int i)) of
                         Some c \<Rightarrow> c
                       | None \<Rightarrow> default_cell cfg i)
                 keys))"

text \<open>\<^verbatim>\<open>BN.toNumber\<close> refuses a number of more than 53 bits.\<close>

definition toNumber :: "BN \<Rightarrow> failure + int" where
  "toNumber n = (if \<bar>n\<bar> < 2 ^ 53 then Inr n else Inl AssertionError)"

text \<open>Lines 163 to 167. Reading \<^verbatim>\<open>.value\<close> of an index that the array does not have
  is a \<^verbatim>\<open>TypeError\<close>.\<close>

definition resolvedContractAddress :: "Config \<Rightarrow> Cell list \<Rightarrow> Cell \<Rightarrow> failure + BN" where
  "resolvedContractAddress cfg array cell =
     (if contractAddress cell < RC_BOUND cfg
      then (case toNumber (contractAddress cell) of
              Inl e \<Rightarrow> Inl e
            | Inr n \<Rightarrow>
                if 0 \<le> n \<and> nat n < length array
                then Inr (cell_value (array ! nat n))
                else Inl TypeError)
      else Inr (contractAddress cell))"

definition abi_request :: "Config \<Rightarrow> Cell list \<Rightarrow> Cell \<Rightarrow> event list" where
  "abi_request cfg array cell =
     (case resolvedContractAddress cfg array cell of
        Inl e \<Rightarrow> []
      | Inr resolved \<Rightarrow> [GetAbiForContract (bn2hex cfg resolved)])"

definition cell_with_abi :: "Config \<Rightarrow> Env \<Rightarrow> Cell list \<Rightarrow> Cell \<Rightarrow> failure + Cell" where
  "cell_with_abi cfg env array cell =
     (case resolvedContractAddress cfg array cell of
        Inl e \<Rightarrow> Inl e
      | Inr resolved \<Rightarrow>
          (case getAbiForContract env (bn2hex cfg resolved) of
             Inl e \<Rightarrow> Inl e
           | Inr abi' \<Rightarrow> Inr (cell\<lparr>abi := abi' (bn2hex cfg (selector cell))\<rparr>)))"

definition finalized :: "Config \<Rightarrow> Env \<Rightarrow> Cell list \<Rightarrow> failure + Cell list" where
  "finalized cfg env cells =
     (case grid cfg cells of
        Inl e \<Rightarrow> Inl e
      | Inr array \<Rightarrow> promise_all (map (cell_with_abi cfg env array) array))"

definition finalized_events :: "Config \<Rightarrow> address \<Rightarrow> Cell list \<Rightarrow> event list" where
  "finalized_events cfg a cells =
     UpdateSheetStatus a (status_message ''Finalizing sheet data'') #
     (case grid cfg cells of
        Inl e \<Rightarrow> []
      | Inr array \<Rightarrow> concat (map (abi_request cfg array) array))"

subsection \<open>Settling the chain (lines 140 to 199)\<close>

definition chain_result :: "Config \<Rightarrow> Env \<Rightarrow> SheetContract \<Rightarrow> Sheet option \<Rightarrow> failure + Cell list" where
  "chain_result cfg env c sheet =
     (case fetched c sheet of
        Inl e \<Rightarrow> Inl e
      | Inr cells \<Rightarrow> finalized cfg env cells)"

text \<open>The message of lines 186 to 189, a template literal over three line breaks.\<close>

definition error_message :: "address \<Rightarrow> string" where
  "error_message a =
     ''Error: Starksheet cannot render sheet at address '' @ a @
     [CHR 0x0A] @ ''              <br />'' @
     [CHR 0x0A] @ ''              <br />'' @
     [CHR 0x0A] @
     ''              Double check address or create a new sheet by clicking on the + button''"

text \<open>The \<^verbatim>\<open>catch\<close> callback, lines 184 to 192, as a function of the two variables of
  lines 96 and 97 (\<^verbatim>\<open>error\<close>, written \<open>err\<close>, and \<^verbatim>\<open>finalMessage\<close>) that returns their new
  values. The callback's own parameter is
  named \<^verbatim>\<open>error\<close> too, so the assignment \<^verbatim>\<open>error = true\<close> of line 185 is to that
  parameter: the variable of line 96 keeps its value.\<close>

definition catch_callback :: "address \<Rightarrow> bool \<Rightarrow> string \<Rightarrow> event list \<times> bool \<times> string" where
  "catch_callback a err finalMessage = ([Navigate ''/''], err, error_message a)"

text \<open>The \<^verbatim>\<open>finally\<close> callback, lines 193 to 199.\<close>

definition finally_callback :: "address \<Rightarrow> bool \<Rightarrow> string \<Rightarrow> event list" where
  "finally_callback a err finalMessage =
     [UpdateSheetStatus a
        \<lparr>loading = Some False, error = Some err, message = Some finalMessage\<rparr>]"

text \<open>The events of the two \<^verbatim>\<open>then\<close> stages before the array is stored.\<close>

definition chain_progress :: "Config \<Rightarrow> SheetContract \<Rightarrow> address \<Rightarrow> Sheet option \<Rightarrow> event list" where
  "chain_progress cfg c a sheet =
     fetched_events c a sheet @
     (case fetched c sheet of
        Inl e \<Rightarrow> []
      | Inr cells \<Rightarrow> finalized_events cfg a cells)"

definition chain_settled :: "Config \<Rightarrow> Env \<Rightarrow> SheetContract \<Rightarrow> address \<Rightarrow> Sheet option \<Rightarrow> event list" where
  "chain_settled cfg env c a sheet =
     (let err = False; finalMessage = [] in
      chain_progress cfg c a sheet @
      (case chain_result cfg env c sheet of
         Inr cells \<Rightarrow> SetValues a cells # finally_callback a err finalMessage
       | Inl e \<Rightarrow>
           (case catch_callback a err finalMessage of
              (evs, err', finalMessage') \<Rightarrow> evs @ finally_callback a err' finalMessage')))"

text \<open>The end of a settled chain: the array is stored, or the \<^verbatim>\<open>catch\<close> callback has
  run; then the \<^verbatim>\<open>finally\<close> callback. (\<open>chain_settled\<close> is \<open>chain_progress\<close> followed by
  this, lemma \<open>chain_settled_tail\<close>.)\<close>

definition chain_tail :: "Config \<Rightarrow> Env \<Rightarrow> SheetContract \<Rightarrow> address \<Rightarrow> Sheet option \<Rightarrow> event list" where
  "chain_tail cfg env c a sheet =
     (case chain_result cfg env c sheet of
        Inr cs \<Rightarrow> [SetValues a cs,
          UpdateSheetStatus a \<lparr>loading = Some False, error = Some False, message = Some []\<rparr>]
      | Inl e \<Rightarrow> [Navigate ''/'',
          UpdateSheetStatus a
            \<lparr>loading = Some False, error = Some False, message = Some (error_message a)\<rparr>])"

subsection \<open>load (lines 65 to 203)\<close>

definition already_loading :: "AppState \<Rightarrow> address \<Rightarrow> bool" where
  "already_loading st a =
     (case appStatus_sheets st a of None \<Rightarrow> False | Some s \<Rightarrow> loading s = Some True)"

text \<open>The test of lines 88 to 91. The object \<^verbatim>\<open>values\<close> is taken to have its own properties
  only: the \<^verbatim>\<open>in\<close> of line 89 would also see one it inherits.\<close>

definition cached :: "AppState \<Rightarrow> address \<Rightarrow> bool" where
  "cached st a = (case values_of st a of None \<Rightarrow> False | Some cells \<Rightarrow> length cells \<noteq> 0)"

definition find_sheet :: "AppState \<Rightarrow> address \<Rightarrow> Sheet option" where
  "find_sheet st a = find (\<lambda>sheet. address sheet = a) (onsheet_sheets st)"

text \<open>\<open>load\<close> returns two lists of events: those it issues before it returns, in
  order, and those issued by the callbacks of its promises once they settle. The
  state it reads (\<^verbatim>\<open>appStatus\<close>, \<^verbatim>\<open>values\<close>, \<^verbatim>\<open>onsheet\<close>) is the one its closure holds, the
  argument \<open>st\<close>. The callbacks of the metadata lookup and those of the cell chain
  touch different parts of the state; the second list has the metadata callback
  first.\<close>

definition load :: "Config \<Rightarrow> Env \<Rightarrow> AppState \<Rightarrow> address \<Rightarrow> event list \<times> event list" where
  "load cfg env st a =
     (if a = [] then ([], [])
      else case contract env of
        None \<Rightarrow> ([], [])
      | Some c \<Rightarrow>
          if already_loading st a then ([], [])
          else if cached st a
          then ([UpdateSheetStatus a \<lparr>loading = Some True, error = Some False, message = None\<rparr>,
                 UpdateSheetStatus a \<lparr>loading = Some False, error = None, message = None\<rparr>], [])
          else
            (let sheet = find_sheet st a in
             ([UpdateSheetStatus a \<lparr>loading = Some True, error = Some False, message = None\<rparr>,
               UpdateSheetStatus a (status_message ''Rendering grid values'')] @
              (if sheet = None then metadata_calls a else []) @
              (if has_calldata sheet then [] else [RenderCells]),
              (if sheet = None then metadata_settled cfg env a else []) @
              chain_settled cfg env c a sheet)))"

definition load_trace :: "Config \<Rightarrow> Env \<Rightarrow> AppState \<Rightarrow> address \<Rightarrow> event list" where
  "load_trace cfg env st a = fst (load cfg env st a) @ snd (load cfg env st a)"

text \<open>\<open>load\<close> gets past its guards and the cache check, and so starts the cell chain.\<close>

definition starts_chain :: "Env \<Rightarrow> AppState \<Rightarrow> address \<Rightarrow> bool" where
  "starts_chain env st a =
     (a \<noteq> [] \<and> contract env \<noteq> None \<and> \<not> already_loading st a \<and> \<not> cached st a)"

definition is_callContract :: "event \<Rightarrow> bool" where
  "is_callContract ev = (case ev of CallContract a entrypoint \<Rightarrow> True | _ \<Rightarrow> False)"

text \<open>A request to the chain: a contract call, a sheet contract call or an ABI lookup.\<close>

definition is_request :: "event \<Rightarrow> bool" where
  "is_request ev =
     (case ev of
        CallContract a entrypoint \<Rightarrow> True
      | RenderCells \<Rightarrow> True
      | GetCell i \<Rightarrow> True
      | GetAbiForContract h \<Rightarrow> True
      | _ \<Rightarrow> False)"

definition is_setValues :: "event \<Rightarrow> bool" where
  "is_setValues ev = (case ev of SetValues a cells \<Rightarrow> True | _ \<Rightarrow> False)"

subsection \<open>Rendering the grid (lines 243 to 274)\<close>

definition nth_opt :: "'a list \<Rightarrow> nat \<Rightarrow> 'a option" where
  "nth_opt xs i = (if i < length xs then Some (xs ! i) else None)"

text \<open>The cell given to \<^verbatim>\<open>ComputedCell\<close> at a row and a column, line 268.\<close>

definition rendered_cell :: "Config \<Rightarrow> Cell list \<Rightarrow> nat \<Rightarrow> nat \<Rightarrow> Cell option" where
  "rendered_cell cfg cells rowIndex colIndex = nth_opt cells (colIndex + N_COL cfg * rowIndex)"

text \<open>The rows of cells that the component renders: none unless the sheet has a
  status, is not loading and its cell array has \<open>GRID_SIZE\<close> entries; then \<open>N_ROW\<close>
  rows, each with one cell per column name (there are \<open>N_COL\<close> of them).\<close>

definition SheetTable :: "Config \<Rightarrow> AppState \<Rightarrow> address \<Rightarrow> Cell option list list option" where
  "SheetTable cfg st a =
     (if a = [] then None
      else case appStatus_sheets st a of
        None \<Rightarrow> None
      | Some s \<Rightarrow>
          if loading s = Some True then None
          else (case values_of st a of
            None \<Rightarrow> None
          | Some cells \<Rightarrow>
              (if length cells = GRID_SIZE cfg
               then Some (map (\<lambda>rowIndex. map (rendered_cell cfg cells rowIndex) [0..<N_COL cfg])
                            [0..<N_ROW cfg])
               else None)))"

subsection \<open>Kinds of events\<close>

definition is_navigate :: "event \<Rightarrow> bool" where
  "is_navigate ev = (case ev of Navigate p \<Rightarrow> True | _ \<Rightarrow> False)"

definition is_appendSheet :: "event \<Rightarrow> bool" where
  "is_appendSheet ev = (case ev of AppendSheet s \<Rightarrow> True | _ \<Rightarrow> False)"

definition is_getAbiForContract :: "event \<Rightarrow> bool" where
  "is_getAbiForContract ev = (case ev of GetAbiForContract h \<Rightarrow> True | _ \<Rightarrow> False)"

text \<open>A string of decimal digits.\<close>

definition decimal :: "string \<Rightarrow> bool" where
  "decimal s = (\<forall>ch\<in>set s. \<exists>d<10. ch = digit_char d)"

text \<open>An event that leaves the loading flag of the sheet at \<open>a\<close> up.\<close>

definition keeps_loading :: "address \<Rightarrow> event \<Rightarrow> bool" where
  "keeps_loading a ev =
     (case ev of
        UpdateSheetStatus a' p \<Rightarrow> a' \<noteq> a \<or> loading p = None \<or> loading p = Some True
      | _ \<Rightarrow> True)"

text \<open>The events of the stages before the array is stored: status messages and
  requests for cells and ABIs.\<close>

definition is_progress :: "address \<Rightarrow> event \<Rightarrow> bool" where
  "is_progress a ev =
     (case ev of
        UpdateSheetStatus a' p \<Rightarrow> a' = a \<and> loading p = None \<and> error p = None
      | GetCell i \<Rightarrow> True
      | GetAbiForContract h \<Rightarrow> True
      | _ \<Rightarrow> False)"

subsection \<open>Concrete inputs\<close>

text \<open>A grid of two rows and two columns, a contract with one cell (id 1) whose
  contract address refers to cell 1 itself, a chain client that answers every call,
  and a state in which nothing is known yet.\<close>

definition cfg_small :: Config where
  "cfg_small =
     \<lparr>GRID_SIZE = 4, N_COL = 2, N_ROW = 2, RC_BOUND = 2 ^ 128,
      bn2hex = (\<lambda>n. if n = 7 then ''0x7'' else ''0x100000000000000000000000000000000''),
      normalizeHexString = (\<lambda>h. case h of None \<Rightarrow> Inl TypeError | Some x \<Rightarrow> Inr x),
      hex2str = (\<lambda>h. Inr h)\<rparr>"

definition contract_one :: SheetContract where
  "contract_one =
     \<lparr>renderCells =
        Inr [\<lparr>CellRendered.cell_id = ''1'', owner = 5, cell_value = 7, cell_error = None\<rparr>],
      getCell = (\<lambda>i. Inr \<lparr>CellData.contractAddress = 1, selector = 3, calldata = []\<rparr>)\<rparr>"

definition env_ok :: Env where
  "env_ok =
     \<lparr>contract = Some contract_one,
      callContract = (\<lambda>a entrypoint. Inr [entrypoint]),
      getAbiForContract = (\<lambda>h. Inr Map.empty)\<rparr>"

definition st_fresh :: AppState where
  "st_fresh =
     \<lparr>values_of = Map.empty, appStatus_sheets = Map.empty, onsheet_sheets = [],
      route = ''/0x1''\<rparr>"

text \<open>The same sheet contract with every request rejected; a chain client that rejects
  the \<^verbatim>\<open>name\<close> call; a contract whose one cell refers to index 9, outside the grid.\<close>

definition contract_rejecting :: SheetContract where
  "contract_rejecting = \<lparr>renderCells = Inl Rejected, getCell = (\<lambda>i. Inl Rejected)\<rparr>"

definition env_rejecting :: Env where
  "env_rejecting =
     \<lparr>contract = Some contract_rejecting,
      callContract = (\<lambda>a entrypoint. Inr [entrypoint]),
      getAbiForContract = (\<lambda>h. Inr Map.empty)\<rparr>"

definition env_name_rejected :: Env where
  "env_name_rejected =
     \<lparr>contract = Some contract_one,
      callContract =
        (\<lambda>a entrypoint. if entrypoint = ''name'' then Inl Rejected else Inr [entrypoint]),
      getAbiForContract = (\<lambda>h. Inr Map.empty)\<rparr>"

definition contract_oob :: SheetContract where
  "contract_oob =
     \<lparr>renderCells =
        Inr [\<lparr>CellRendered.cell_id = ''1'', owner = 5, cell_value = 7, cell_error = None\<rparr>],
      getCell = (\<lambda>i. Inr \<lparr>CellData.contractAddress = 9, selector = 3, calldata = []\<rparr>)\<rparr>"

definition env_oob :: Env where
  "env_oob =
     \<lparr>contract = Some contract_oob,
      callContract = (\<lambda>a entrypoint. Inr [entrypoint]),
      getAbiForContract = (\<lambda>h. Inr Map.empty)\<rparr>"

text \<open>States: a sheet flagged as loading whose cells are stored; a sheet whose cells are
  stored and that is in no list and has no status; a sheet that is in the list.\<close>

definition st_busy :: AppState where
  "st_busy =
     \<lparr>values_of = [''0x1'' \<mapsto> [default_cell cfg_small 0]],
      appStatus_sheets =
        [''0x1'' \<mapsto> \<lparr>loading = Some True, error = Some False, message = None\<rparr>],
      onsheet_sheets = [],
      route = ''/0x1''\<rparr>"

definition st_cached :: AppState where
  "st_cached =
     \<lparr>values_of = [''0x1'' \<mapsto> [default_cell cfg_small 0]],
      appStatus_sheets = Map.empty,
      onsheet_sheets = [],
      route = ''/0x1''\<rparr>"

definition st_known :: AppState where
  "st_known =
     \<lparr>values_of = Map.empty, appStatus_sheets = Map.empty,
      onsheet_sheets =
        [\<lparr>name = ''Sheet'', symbol = ''SHT'', address = ''0x1'', sheet_calldata = None\<rparr>],
      route = ''/0x1''\<rparr>"

text \<open>The fetched cell of \<open>contract_one\<close> and the grid built from it; the same for
  \<open>contract_oob\<close>.\<close>

definition cell_one :: Cell where
  "cell_one =
     merge_cell \<lparr>CellRendered.cell_id = ''1'', owner = 5, cell_value = 7, cell_error = None\<rparr>
       \<lparr>CellData.contractAddress = 1, selector = 3, calldata = []\<rparr>"

definition array_small :: "Cell list" where
  "array_small =
     [default_cell cfg_small 0, cell_one, default_cell cfg_small 2, default_cell cfg_small 3]"

definition cell_oob :: Cell where
  "cell_oob =
     merge_cell \<lparr>CellRendered.cell_id = ''1'', owner = 5, cell_value = 7, cell_error = None\<rparr>
       \<lparr>CellData.contractAddress = 9, selector = 3, calldata = []\<rparr>"

definition array_oob :: "Cell list" where
  "array_oob =
     [default_cell cfg_small 0, cell_oob, default_cell cfg_small 2, default_cell cfg_small 3]"

text \<open>A contract whose one cell has the id \<open>10 ^ 21\<close>, printed \<^verbatim>\<open>1e+21\<close>, and a literal
  contract address.\<close>

definition contract_exp :: SheetContract where
  "contract_exp =
     \<lparr>renderCells =
        Inr [\<lparr>CellRendered.cell_id = ''1e+21'', owner = 5, cell_value = 7, cell_error = None\<rparr>],
      getCell =
        (\<lambda>i. Inr \<lparr>CellData.contractAddress = 2 ^ 128, selector = 3, calldata = []\<rparr>)\<rparr>"

definition env_exp :: Env where
  "env_exp =
     \<lparr>contract = Some contract_exp,
      callContract = (\<lambda>a entrypoint. Inr [entrypoint]),
      getAbiForContract = (\<lambda>h. Inr Map.empty)\<rparr>"

definition cell_exp :: Cell where
  "cell_exp =
     merge_cell
       \<lparr>CellRendered.cell_id = ''1e+21'', owner = 5, cell_value = 7, cell_error = None\<rparr>
       \<lparr>CellData.contractAddress = 2 ^ 128, selector = 3, calldata = []\<rparr>"

definition array_exp :: "Cell list" where
  "array_exp =
     [default_cell cfg_small 0, cell_exp, default_cell cfg_small 2, default_cell cfg_small 3]"

section \<open>Lemmas\<close>

subsection \<open>Promise.all and the grid\<close>

lemma promise_all_Inr_length: "promise_all ps = Inr xs \<Longrightarrow> length xs = length ps"
proof (induction ps arbitrary: xs rule: promise_all.induct)
  case 1 then show ?case by simp
next
  case (2 e ps) then show ?case by simp
next
  case (3 x ps) then show ?case by (auto split: sum.splits)
qed

lemma promise_all_Inr_nth:
  "promise_all ps = Inr xs \<Longrightarrow> i < length ps \<Longrightarrow> ps ! i = Inr (xs ! i)"
proof (induction ps arbitrary: xs i rule: promise_all.induct)
  case 1 then show ?case by simp
next
  case (2 e ps) then show ?case by simp
next
  case (3 x ps) then show ?case by (cases i) (auto split: sum.splits)
qed

lemma promise_all_Inl_elem:
  "promise_all ps = Inl e \<Longrightarrow> Inl e \<in> set ps"
proof (induction ps rule: promise_all.induct)
  case 1 then show ?case by simp
next
  case (2 e' ps) then show ?case by simp
next
  case (3 x ps) then show ?case by (auto split: sum.splits)
qed

lemma promise_all_has_Inl:
  "Inl e \<in> set ps \<Longrightarrow> \<exists>e'. promise_all ps = Inl e'"
proof (induction ps rule: promise_all.induct)
  case 1 then show ?case by simp
next
  case (2 e' ps) then show ?case by simp
next
  case (3 x ps) then show ?case by (auto split: sum.splits)
qed

lemma cells_by_id_foldl_absent:
  "(\<forall>c\<in>set cells. parseInt (cell_id c) \<noteq> k) \<Longrightarrow>
   foldl (\<lambda>prev cell. prev(parseInt (cell_id cell) \<mapsto> cell)) m cells k = m k"
  by (induction cells arbitrary: m) auto

lemma cells_by_id_absent:
  "(\<forall>c\<in>set cells. parseInt (cell_id c) \<noteq> k) \<Longrightarrow> cells_by_id cells k = None"
  by (simp add: cells_by_id_def cells_by_id_foldl_absent)

lemma grid_Inr:
  "grid cfg cells = Inr array \<Longrightarrow>
   GRID_SIZE cfg < 2 ^ 32 \<and> length array = GRID_SIZE cfg \<and>
   (\<forall>i<GRID_SIZE cfg. array ! i =
      (case cells_by_id cells (Some (int i)) of Some c \<Rightarrow> c | None \<Rightarrow> default_cell cfg i))"
  by (auto simp: grid_def Array_keys_def split: if_splits option.splits)

lemma finalized_Inr_length:
  "finalized cfg env cells = Inr cs \<Longrightarrow> length cs = GRID_SIZE cfg"
  by (auto simp: finalized_def split: sum.splits dest!: promise_all_Inr_length grid_Inr)

lemma cell_with_abi_fields:
  "cell_with_abi cfg env array cell = Inr cell' \<Longrightarrow>
   cell_id cell' = cell_id cell \<and> owner cell' = owner cell \<and> cell_value cell' = cell_value cell \<and>
   cell_error cell' = cell_error cell \<and> contractAddress cell' = contractAddress cell \<and>
   selector cell' = selector cell \<and> calldata cell' = calldata cell"
  by (auto simp: cell_with_abi_def split: sum.splits)

lemma finalized_Inr_nth:
  assumes "finalized cfg env cells = Inr cs" and "grid cfg cells = Inr array" and "i < GRID_SIZE cfg"
  shows "cell_with_abi cfg env array (array ! i) = Inr (cs ! i)"
proof -
  from assms(1,2) have pa: "promise_all (map (cell_with_abi cfg env array) array) = Inr cs"
    by (simp add: finalized_def)
  from grid_Inr[OF assms(2)] assms(3) have "i < length (map (cell_with_abi cfg env array) array)" by simp
  from promise_all_Inr_nth[OF pa this] grid_Inr[OF assms(2)] assms(3) show ?thesis by simp
qed

subsection \<open>Printed numbers\<close>

lemma less_10_cases:
  "d < 10 \<Longrightarrow> d = 0 \<or> d = 1 \<or> d = 2 \<or> d = 3 \<or> d = 4 \<or> d = 5 \<or> d = 6 \<or> d = 7 \<or> d = 8 \<or> d = (9::nat)"
  by arith

lemma digit_char_facts:
  assumes "d < 10"
  shows "digit_value (digit_char d) = Some d \<and> \<not> is_whitespace (digit_char d) \<and>
         digit_char d \<noteq> CHR ''-'' \<and> digit_char d \<noteq> CHR ''+'' \<and>
         digit_char d \<noteq> CHR ''x'' \<and> digit_char d \<noteq> CHR ''X''"
  using less_10_cases[OF assms]
  by (elim disjE) (simp_all add: digit_char_def digit_value_def is_whitespace_def)

lemma toString_decimal: "toString n \<noteq> [] \<and> decimal (toString n)"
proof (induction n rule: toString.induct)
  case (1 n)
  show ?case
  proof (cases "n < 10")
    case True
    then show ?thesis by (auto simp: toString.simps[of n] decimal_def)
  next
    case False
    have "\<exists>d<10. digit_char (n mod 10) = digit_char d"
      by (rule exI[of _ "n mod 10"]) simp
    with False 1 show ?thesis
      by (auto simp: toString.simps[of n] decimal_def)
  qed
qed

lemma digits_value_snoc:
  "digits_value r (z @ [ch]) =
     digits_value r z * r + (case digit_value ch of None \<Rightarrow> 0 | Some d \<Rightarrow> d)"
  by (simp add: digits_value_def)

lemma digits_value_toString: "digits_value 10 (toString n) = n"
proof (induction n rule: toString.induct)
  case (1 n)
  show ?case
  proof (cases "n < 10")
    case True
    then show ?thesis
      by (simp add: toString.simps[of n] digits_value_def digit_char_facts)
  next
    case False
    have "n mod 10 < 10" by simp
    with False 1 show ?thesis
      by (simp add: toString.simps[of n] digits_value_snoc digit_char_facts)
  qed
qed

lemma decimal_takeWhile: "decimal s \<Longrightarrow> takeWhile (is_digit 10) s = s"
  by (rule takeWhile_eq_all_conv[THEN iffD2])
     (auto simp: decimal_def is_digit_def digit_char_facts)

lemma decimal_head:
  assumes "decimal s" and "s \<noteq> []"
  shows "dropWhile is_whitespace s = s \<and> hd s \<noteq> CHR ''-'' \<and> hd s \<noteq> CHR ''+'' \<and>
         take 2 s \<noteq> ''0x'' \<and> take 2 s \<noteq> ''0X''"
proof -
  from assms obtain ch r where s: "s = ch # r" by (cases s) auto
  from assms(1) s obtain d where d: "d < 10" "ch = digit_char d" by (auto simp: decimal_def)
  have two: "take 2 s \<noteq> ''0x'' \<and> take 2 s \<noteq> ''0X''"
  proof (cases r)
    case Nil
    with s show ?thesis by simp
  next
    case (Cons ch' r')
    with assms(1) s obtain d' where "d' < 10" "ch' = digit_char d'" by (auto simp: decimal_def)
    with digit_char_facts[of d'] have "ch' \<noteq> CHR ''x''" "ch' \<noteq> CHR ''X''" by simp_all
    with s Cons show ?thesis by (simp add: numeral_2_eq_2)
  qed
  from digit_char_facts[OF d(1)] d(2) s two show ?thesis by simp
qed

lemma parseInt_decimal:
  assumes dec: "decimal s" and ne: "s \<noteq> []"
  shows "parseInt s = Some (int (digits_value 10 s))"
proof -
  from ne obtain ch r where s: "s = ch # r" by (cases s) auto
  from decimal_head[OF dec ne]
  have w: "dropWhile is_whitespace (ch # r) = ch # r" and h: "ch \<noteq> CHR ''-''" "ch \<noteq> CHR ''+''"
    and t: "take 2 (ch # r) \<noteq> ''0x''" "take 2 (ch # r) \<noteq> ''0X''"
    by (simp_all add: s)
  have tw: "takeWhile (is_digit 10) (ch # r) = ch # r"
    using decimal_takeWhile[OF dec] by (simp add: s)
  show ?thesis
    unfolding s parseInt_def w
    using h t by (simp add: Let_def tw del: takeWhile.simps take_Cons_numeral)
qed

lemma parseInt_toString: "parseInt (toString n) = Some (int n)"
  using toString_decimal[of n] by (simp add: parseInt_decimal digits_value_toString)

subsection \<open>Events and their effects on the state\<close>

lemma run_events_Nil: "run_events [] st = st"
  by (simp add: run_events_def)

lemma run_events_Cons: "run_events (e # evs) st = run_events evs (apply_event e st)"
  by (simp add: run_events_def)

lemma run_events_append: "run_events (xs @ ys) st = run_events ys (run_events xs st)"
  by (simp add: run_events_def)

lemma apply_event_values:
  "\<not> is_setValues e \<Longrightarrow> values_of (apply_event e st) = values_of st"
  by (cases e) (simp_all add: is_setValues_def updateSheetStatus_def appendSheet_def)

lemma run_events_values:
  "\<forall>e\<in>set evs. \<not> is_setValues e \<Longrightarrow> values_of (run_events evs st) = values_of st"
  by (induction evs arbitrary: st) (simp_all add: run_events_Nil run_events_Cons apply_event_values)

lemma apply_event_onsheet:
  "\<not> is_appendSheet e \<Longrightarrow> onsheet_sheets (apply_event e st) = onsheet_sheets st"
  by (cases e) (simp_all add: is_appendSheet_def updateSheetStatus_def setValues_def)

lemma run_events_onsheet:
  "\<forall>e\<in>set evs. \<not> is_appendSheet e \<Longrightarrow> onsheet_sheets (run_events evs st) = onsheet_sheets st"
  by (induction evs arbitrary: st) (simp_all add: run_events_Nil run_events_Cons apply_event_onsheet)



lemma updateSheetStatus_sets:
  "\<exists>s. appStatus_sheets (updateSheetStatus a p st) a = Some s \<and>
       (\<forall>b. loading p = Some b \<longrightarrow> loading s = Some b) \<and>
       (\<forall>b. error p = Some b \<longrightarrow> error s = Some b) \<and>
       (\<forall>m. message p = Some m \<longrightarrow> message s = Some m)"
  by (simp add: updateSheetStatus_def merge_status_def)

lemma abi_request_progress: "e \<in> set (abi_request cfg array cell) \<Longrightarrow> is_progress a e"
  by (auto simp: abi_request_def is_progress_def split: sum.splits)

lemma fetched_events_progress: "e \<in> set (fetched_events c a sheet) \<Longrightarrow> is_progress a e"
  by (auto simp: fetched_events_def is_progress_def status_message_def split: if_splits sum.splits)

lemma finalized_events_progress: "e \<in> set (finalized_events cfg a cells) \<Longrightarrow> is_progress a e"
  by (auto simp: finalized_events_def is_progress_def status_message_def abi_request_progress
      split: sum.splits dest: abi_request_progress[where a=a])

lemma chain_progress_progress: "e \<in> set (chain_progress cfg c a sheet) \<Longrightarrow> is_progress a e"
  by (auto simp: chain_progress_def fetched_events_progress finalized_events_progress split: sum.splits)

lemma is_progress_facts:
  "is_progress a e \<Longrightarrow>
   \<not> is_setValues e \<and> \<not> is_navigate e \<and> \<not> is_appendSheet e \<and> \<not> is_callContract e \<and>
   e \<noteq> RenderCells \<and> keeps_loading a e"
  by (cases e) (auto simp: is_progress_def is_setValues_def is_navigate_def is_appendSheet_def
      is_callContract_def keeps_loading_def)

lemma metadata_settled_cases:
  "metadata_settled cfg env a = [] \<or> (\<exists>s. metadata_settled cfg env a = [AppendSheet s])"
  by (simp add: metadata_settled_def split: sum.splits)

lemma chain_settled_Inr:
  "chain_result cfg env c sheet = Inr cs \<Longrightarrow>
   chain_settled cfg env c a sheet =
     chain_progress cfg c a sheet @
     [SetValues a cs,
      UpdateSheetStatus a \<lparr>loading = Some False, error = Some False, message = Some []\<rparr>]"
  by (simp add: chain_settled_def finally_callback_def)

lemma chain_settled_Inl:
  "chain_result cfg env c sheet = Inl e \<Longrightarrow>
   chain_settled cfg env c a sheet =
     chain_progress cfg c a sheet @
     [Navigate ''/'',
      UpdateSheetStatus a
        \<lparr>loading = Some False, error = Some False, message = Some (error_message a)\<rparr>]"
  by (simp add: chain_settled_def finally_callback_def catch_callback_def)

lemma load_started_chain:
  "starts_chain env st a \<Longrightarrow> contract env = Some c \<Longrightarrow>
   load cfg env st a =
     ([UpdateSheetStatus a \<lparr>loading = Some True, error = Some False, message = None\<rparr>,
       UpdateSheetStatus a (status_message ''Rendering grid values'')] @
      (if find_sheet st a = None then metadata_calls a else []) @
      (if has_calldata (find_sheet st a) then [] else [RenderCells]),
      (if find_sheet st a = None then metadata_settled cfg env a else []) @
      chain_settled cfg env c a (find_sheet st a))"
  by (simp add: load_def starts_chain_def Let_def)

lemma load_not_started:
  "\<not> starts_chain env st a \<Longrightarrow>
   load cfg env st a = ([], []) \<or>
   (a \<noteq> [] \<and> contract env \<noteq> None \<and> \<not> already_loading st a \<and> cached st a \<and>
    load cfg env st a =
      ([UpdateSheetStatus a \<lparr>loading = Some True, error = Some False, message = None\<rparr>,
        UpdateSheetStatus a \<lparr>loading = Some False, error = None, message = None\<rparr>], []))"
  by (auto simp: load_def starts_chain_def split: option.splits)

subsection \<open>The last event of a run\<close>

lemma chain_settled_last:
  "\<exists>pre m. chain_settled cfg env c a sheet =
     pre @ [UpdateSheetStatus a \<lparr>loading = Some False, error = Some False, message = Some m\<rparr>]"
proof (cases "chain_result cfg env c sheet")
  case (Inl e)
  from chain_settled_Inl[OF this, of a] show ?thesis
    by (metis append.assoc append_Cons append_Nil)
next
  case (Inr cs)
  from chain_settled_Inr[OF this, of a] show ?thesis
    by (metis append.assoc append_Cons append_Nil)
qed

lemma load_trace_last:
  assumes "starts_chain env st a"
  shows "\<exists>pre m. load_trace cfg env st a =
     pre @ [UpdateSheetStatus a \<lparr>loading = Some False, error = Some False, message = Some m\<rparr>]"
proof -
  from assms obtain c where c: "contract env = Some c"
    by (auto simp: starts_chain_def)
  obtain pre m where "chain_settled cfg env c a (find_sheet st a) =
      pre @ [UpdateSheetStatus a \<lparr>loading = Some False, error = Some False, message = Some m\<rparr>]"
    using chain_settled_last by blast
  then have "load_trace cfg env st a =
      (fst (load cfg env st a) @
       (if find_sheet st a = None then metadata_settled cfg env a else []) @ pre) @
      [UpdateSheetStatus a \<lparr>loading = Some False, error = Some False, message = Some m\<rparr>]"
    by (simp add: load_trace_def load_started_chain[OF assms c])
  then show ?thesis by blast
qed

lemma starts_chain_fresh: "starts_chain env_ok st_fresh ''0x1''"
  by (simp add: starts_chain_def env_ok_def st_fresh_def already_loading_def cached_def)

subsection \<open>The run of a started chain\<close>

lemma chain_settled_tail:
  "chain_settled cfg env c a sheet = chain_progress cfg c a sheet @ chain_tail cfg env c a sheet"
  by (cases "chain_result cfg env c sheet")
     (simp_all add: chain_tail_def chain_settled_Inl chain_settled_Inr)

lemma filter_none: "(\<forall>e\<in>set xs. \<not> P e) \<Longrightarrow> filter P xs = []"
  by (simp add: filter_empty_conv)

lemma metadata_settled_facts:
  "e \<in> set (metadata_settled cfg env a) \<Longrightarrow>
   is_appendSheet e \<and> \<not> is_setValues e \<and> \<not> is_navigate e \<and> \<not> is_callContract e \<and>
   \<not> is_request e \<and> e \<noteq> RenderCells \<and> keeps_loading a' e"
  using metadata_settled_cases[of cfg env a]
  by (auto simp: is_appendSheet_def is_setValues_def is_navigate_def is_callContract_def
      is_request_def keeps_loading_def)

lemma chain_tail_facts:
  "e \<in> set (chain_tail cfg env c a sheet) \<Longrightarrow>
   \<not> is_appendSheet e \<and> \<not> is_callContract e \<and> \<not> is_request e \<and> e \<noteq> RenderCells"
  by (auto simp: chain_tail_def is_appendSheet_def is_callContract_def is_request_def
      split: sum.splits)

lemma load_trace_chain:
  assumes "starts_chain env st a" and "contract env = Some c"
  shows "load_trace cfg env st a =
     [UpdateSheetStatus a \<lparr>loading = Some True, error = Some False, message = None\<rparr>,
      UpdateSheetStatus a (status_message ''Rendering grid values'')] @
     (if find_sheet st a = None then metadata_calls a else []) @
     (if has_calldata (find_sheet st a) then [] else [RenderCells]) @
     (if find_sheet st a = None then metadata_settled cfg env a else []) @
     chain_progress cfg c a (find_sheet st a) @
     chain_tail cfg env c a (find_sheet st a)"
  by (simp add: load_trace_def load_started_chain[OF assms] chain_settled_tail)

lemma filter_callContract_progress:
  "filter is_callContract (chain_progress cfg c a sheet) = []"
  by (rule filter_none) (blast dest: chain_progress_progress is_progress_facts)

lemma filter_callContract_tail:
  "filter is_callContract (chain_tail cfg env c a sheet) = []"
  by (rule filter_none) (blast dest: chain_tail_facts)

lemma filter_callContract_metadata:
  "filter is_callContract (metadata_settled cfg env a) = []"
  by (rule filter_none) (blast dest: metadata_settled_facts)

lemma filter_callContract_chain:
  assumes "starts_chain env st a"
  shows "filter is_callContract (load_trace cfg env st a) =
     (if find_sheet st a = None then [CallContract a ''name'', CallContract a ''symbol''] else [])"
proof -
  from assms obtain c where c: "contract env = Some c" by (auto simp: starts_chain_def)
  show ?thesis
    by (simp add: load_trace_chain[OF assms c] filter_callContract_progress
        filter_callContract_tail filter_callContract_metadata metadata_calls_def
        is_callContract_def status_message_def)
qed

lemma load_trace_not_started:
  "\<not> starts_chain env st a \<Longrightarrow>
   load_trace cfg env st a = [] \<or>
   load_trace cfg env st a =
     [UpdateSheetStatus a \<lparr>loading = Some True, error = Some False, message = None\<rparr>,
      UpdateSheetStatus a \<lparr>loading = Some False, error = None, message = None\<rparr>]"
  using load_not_started[of env st a cfg] by (auto simp: load_trace_def)

lemma no_chain_no_request:
  "\<not> starts_chain env st a \<Longrightarrow> e \<in> set (load_trace cfg env st a) \<Longrightarrow>
   \<not> is_request e \<and> \<not> is_callContract e \<and> \<not> is_setValues e \<and> \<not> is_appendSheet e \<and>
   \<not> is_navigate e"
  using load_trace_not_started[of env st a cfg]
  by (auto simp: is_request_def is_callContract_def is_setValues_def is_appendSheet_def
      is_navigate_def)

subsection \<open>Status, route and request counts\<close>

lemma already_loading_load: "already_loading st a \<Longrightarrow> load cfg env st a = ([], [])"
  by (simp add: load_def split: option.splits)

lemma status_after_update:
  "\<exists>s. appStatus_sheets (run_events (pre @ [UpdateSheetStatus a p]) st) a = Some s \<and>
       (\<forall>b. loading p = Some b \<longrightarrow> loading s = Some b) \<and>
       (\<forall>b. error p = Some b \<longrightarrow> error s = Some b) \<and>
       (\<forall>m. message p = Some m \<longrightarrow> message s = Some m)"
  using updateSheetStatus_sets[of a p "run_events pre st"]
  by (simp add: run_events_append run_events_Cons run_events_Nil)

lemma route_updateSheetStatus: "route (updateSheetStatus a p st) = route st"
  by (simp add: updateSheetStatus_def)

lemma sync_events_facts:
  "e \<in> set ([UpdateSheetStatus a \<lparr>loading = Some True, error = Some False, message = None\<rparr>,
      UpdateSheetStatus a (status_message m)] @
     (if sheet = None then metadata_calls a else []) @
     (if has_calldata sheet then [] else [RenderCells])) \<Longrightarrow>
   \<not> is_navigate e \<and> \<not> is_setValues e \<and> \<not> is_appendSheet e \<and> keeps_loading a e"
  by (auto simp: is_navigate_def is_setValues_def is_appendSheet_def keeps_loading_def
      metadata_calls_def status_message_def split: if_splits)

lemma abi_request_shape:
  "abi_request cfg array cell = [] \<or> (\<exists>h. abi_request cfg array cell = [GetAbiForContract h])"
  by (simp add: abi_request_def split: sum.splits)

lemma abi_request_length: "length (abi_request cfg array cell) \<le> 1"
  using abi_request_shape[of cfg array cell] by auto

lemma abi_requests_kind:
  "e \<in> set (concat (map (abi_request cfg array) xs)) \<Longrightarrow> is_request e \<and> is_getAbiForContract e"
proof -
  assume "e \<in> set (concat (map (abi_request cfg array) xs))"
  then obtain cell where "e \<in> set (abi_request cfg array cell)" by auto
  with abi_request_shape[of cfg array cell] obtain h where "e = GetAbiForContract h" by auto
  then show ?thesis by (simp add: is_request_def is_getAbiForContract_def)
qed

lemma filter_all: "(\<forall>e\<in>set xs. P e) \<Longrightarrow> filter P xs = xs"
  by (simp add: filter_id_conv)

lemma filter_request_abi_requests:
  "filter is_request (concat (map (abi_request cfg array) xs)) =
   concat (map (abi_request cfg array) xs)"
  by (rule filter_all) (blast dest: abi_requests_kind)

lemma filter_getAbi_abi_requests:
  "filter is_getAbiForContract (concat (map (abi_request cfg array) xs)) =
   concat (map (abi_request cfg array) xs)"
  by (rule filter_all) (blast dest: abi_requests_kind)

lemma filter_request_GetCells:
  "filter is_request (map (\<lambda>cell. GetCell (f cell)) xs) = map (\<lambda>cell. GetCell (f cell)) xs"
  by (rule filter_all) (auto simp: is_request_def)

lemma filter_getAbi_GetCells:
  "filter is_getAbiForContract (map (\<lambda>cell. GetCell (f cell)) xs) = []"
  by (rule filter_none) (auto simp: is_getAbiForContract_def)

lemma filter_request_fetched_events:
  "filter is_request (fetched_events c a sheet) =
     (if has_calldata sheet then []
      else case renderCells c of
             Inl e \<Rightarrow> []
           | Inr renderedCells \<Rightarrow> map (\<lambda>cell. GetCell (CellRendered.cell_id cell)) renderedCells)"
  by (simp add: fetched_events_def filter_request_GetCells is_request_def status_message_def
      split: sum.splits)

lemma filter_getAbi_fetched_events:
  "filter is_getAbiForContract (fetched_events c a sheet) = []"
  by (simp add: fetched_events_def filter_getAbi_GetCells is_getAbiForContract_def
      status_message_def split: sum.splits)

lemma filter_request_finalized_events:
  "filter is_request (finalized_events cfg a cells) =
     (case grid cfg cells of
        Inl e \<Rightarrow> []
      | Inr array \<Rightarrow> concat (map (abi_request cfg array) array))"
  by (simp add: finalized_events_def filter_request_abi_requests is_request_def
      status_message_def split: sum.splits)

lemma filter_getAbi_finalized_events:
  "filter is_getAbiForContract (finalized_events cfg a cells) =
     (case grid cfg cells of
        Inl e \<Rightarrow> []
      | Inr array \<Rightarrow> concat (map (abi_request cfg array) array))"
  by (simp add: finalized_events_def filter_getAbi_abi_requests is_getAbiForContract_def
      status_message_def split: sum.splits)

lemma filter_request_metadata: "filter is_request (metadata_settled cfg env a) = []"
  by (rule filter_none) (blast dest: metadata_settled_facts)

lemma filter_request_tail: "filter is_request (chain_tail cfg env c a sheet) = []"
  by (rule filter_none) (blast dest: chain_tail_facts)

lemma filter_getAbi_metadata: "filter is_getAbiForContract (metadata_settled cfg env a) = []"
  using metadata_settled_cases[of cfg env a] by (auto simp: is_getAbiForContract_def)

lemma filter_getAbi_tail: "filter is_getAbiForContract (chain_tail cfg env c a sheet) = []"
  by (simp add: chain_tail_def is_getAbiForContract_def split: sum.splits)

lemma requests_of_run:
  assumes "starts_chain env st a" and "contract env = Some c"
  shows "filter is_request (load_trace cfg env st a) =
     (if find_sheet st a = None then [CallContract a ''name'', CallContract a ''symbol''] else []) @
     (if has_calldata (find_sheet st a) then []
      else RenderCells #
        (case renderCells c of
           Inl e \<Rightarrow> []
         | Inr renderedCells \<Rightarrow> map (\<lambda>cell. GetCell (CellRendered.cell_id cell)) renderedCells)) @
     (case fetched c (find_sheet st a) of
        Inl e \<Rightarrow> []
      | Inr cells \<Rightarrow>
          (case grid cfg cells of
             Inl e \<Rightarrow> []
           | Inr array \<Rightarrow> concat (map (abi_request cfg array) array)))"
proof -
  have pr: "filter is_request (chain_progress cfg c a (find_sheet st a)) =
     (if has_calldata (find_sheet st a) then []
      else case renderCells c of
             Inl e \<Rightarrow> []
           | Inr renderedCells \<Rightarrow> map (\<lambda>cell. GetCell (CellRendered.cell_id cell)) renderedCells) @
     (case fetched c (find_sheet st a) of
        Inl e \<Rightarrow> []
      | Inr cells \<Rightarrow>
          (case grid cfg cells of
             Inl e \<Rightarrow> []
           | Inr array \<Rightarrow> concat (map (abi_request cfg array) array)))"
    by (simp add: chain_progress_def filter_request_fetched_events
        filter_request_finalized_events split: sum.splits)
  show ?thesis
    unfolding load_trace_chain[OF assms]
    by (simp add: pr filter_request_metadata filter_request_tail metadata_calls_def
        is_request_def status_message_def)
qed

lemma abi_lookups_of_run:
  assumes "starts_chain env st a" and "contract env = Some c"
      and "fetched c (find_sheet st a) = Inr cells" and "grid cfg cells = Inr array"
  shows "filter is_getAbiForContract (load_trace cfg env st a) =
         concat (map (abi_request cfg array) array)"
proof -
  have pr: "filter is_getAbiForContract (chain_progress cfg c a (find_sheet st a)) =
        concat (map (abi_request cfg array) array)"
    by (simp add: chain_progress_def filter_getAbi_fetched_events
        filter_getAbi_finalized_events assms(3,4))
  show ?thesis
    unfolding load_trace_chain[OF assms(1,2)]
    by (simp add: pr filter_getAbi_metadata filter_getAbi_tail metadata_calls_def
        is_getAbiForContract_def status_message_def)
qed

subsection \<open>The loading flag while the chain is in flight\<close>

lemma starts_chain_rejecting: "starts_chain env_rejecting st_fresh ''0x1''"
  by (simp add: starts_chain_def env_rejecting_def st_fresh_def already_loading_def cached_def)

lemma contract_env_rejecting: "contract env_rejecting = Some contract_rejecting"
  by (simp add: env_rejecting_def)

lemma find_sheet_fresh: "find_sheet st_fresh a = None"
  by (simp add: find_sheet_def st_fresh_def)

lemma chain_result_rejecting:
  "chain_result cfg_small env_rejecting contract_rejecting (find_sheet st_fresh ''0x1'') = Inl Rejected"
  by (simp add: chain_result_def fetched_def has_calldata_def contract_rejecting_def find_sheet_fresh)





lemma already_loading_busy: "already_loading st_busy ''0x1''"
  by (simp add: already_loading_def st_busy_def)



subsection \<open>Runs that do not start the chain\<close>

lemma cached_not_started: "cached st a \<Longrightarrow> \<not> starts_chain env st a"
  by (simp add: starts_chain_def)

lemma filter_request_none:
  "\<not> starts_chain env st a \<Longrightarrow> filter is_request (load_trace cfg env st a) = []"
  by (rule filter_none) (blast dest: no_chain_no_request)

lemma values_not_started:
  "\<not> starts_chain env st a \<Longrightarrow>
   values_of (run_events (load_trace cfg env st a) st) = values_of st"
  by (rule run_events_values) (blast dest: no_chain_no_request)

lemma load_cached:
  "a \<noteq> [] \<Longrightarrow> contract env \<noteq> None \<Longrightarrow> \<not> already_loading st a \<Longrightarrow> cached st a \<Longrightarrow>
   load cfg env st a =
     ([UpdateSheetStatus a \<lparr>loading = Some True, error = Some False, message = None\<rparr>,
       UpdateSheetStatus a \<lparr>loading = Some False, error = None, message = None\<rparr>], [])"
  by (auto simp: load_def split: option.splits)

lemma cached_st_cached: "cached st_cached ''0x1''"
  by (simp add: cached_def st_cached_def)

subsection \<open>The sheet list\<close>

lemma filter_appendSheet_progress:
  "filter is_appendSheet (chain_progress cfg c a sheet) = []"
  by (rule filter_none) (blast dest: chain_progress_progress is_progress_facts)

lemma filter_appendSheet_tail:
  "filter is_appendSheet (chain_tail cfg env c a sheet) = []"
  by (rule filter_none) (blast dest: chain_tail_facts)

lemma filter_appendSheet_metadata:
  "filter is_appendSheet (metadata_settled cfg env a) = metadata_settled cfg env a"
  using metadata_settled_cases[of cfg env a] by (auto simp: is_appendSheet_def)

lemma filter_appendSheet_chain:
  assumes "starts_chain env st a"
  shows "filter is_appendSheet (load_trace cfg env st a) =
     (if find_sheet st a = None then metadata_settled cfg env a else [])"
proof -
  from assms obtain c where c: "contract env = Some c" by (auto simp: starts_chain_def)
  show ?thesis
    by (simp add: load_trace_chain[OF assms c] filter_appendSheet_progress
        filter_appendSheet_tail filter_appendSheet_metadata metadata_calls_def
        is_appendSheet_def status_message_def)
qed

lemma metadata_settled_resolved:
  assumes "callContract env a ''name'' = Inr rn" and "callContract env a ''symbol'' = Inr rs"
      and "decode_result cfg rn = Inr n" and "decode_result cfg rs = Inr s"
  shows "metadata_settled cfg env a =
     [AppendSheet \<lparr>name = n, symbol = s, address = a, sheet_calldata = None\<rparr>]"
  using assms by (simp add: metadata_settled_def)

lemma metadata_settled_rejected:
  assumes "(\<exists>e. callContract env a ''name'' = Inl e) \<or> (\<exists>e. callContract env a ''symbol'' = Inl e)"
  shows "metadata_settled cfg env a = []"
  using assms
  by (cases "callContract env a ''name''"; cases "callContract env a ''symbol''")
     (auto simp: metadata_settled_def)

lemma onsheet_one_append:
  assumes "\<forall>e\<in>set xs. \<not> is_appendSheet e" and "\<forall>e\<in>set ys. \<not> is_appendSheet e"
  shows "onsheet_sheets (run_events (xs @ AppendSheet s # ys) st) = onsheet_sheets st @ [s]"
proof -
  have "onsheet_sheets (run_events (xs @ AppendSheet s # ys) st) =
        onsheet_sheets (apply_event (AppendSheet s) (run_events xs st))"
    by (simp add: run_events_append run_events_Cons run_events_onsheet[OF assms(2)])
  also have "\<dots> = onsheet_sheets (run_events xs st) @ [s]"
    by (simp add: appendSheet_def)
  finally show ?thesis by (simp add: run_events_onsheet[OF assms(1)])
qed

lemma onsheet_load_resolved:
  assumes sc: "starts_chain env st a" and fs: "find_sheet st a = None"
      and ms: "metadata_settled cfg env a = [AppendSheet sh]"
  shows "onsheet_sheets (run_events (load_trace cfg env st a) st) = onsheet_sheets st @ [sh]"
proof -
  from sc obtain c where c: "contract env = Some c" by (auto simp: starts_chain_def)
  let ?xs = "[UpdateSheetStatus a \<lparr>loading = Some True, error = Some False, message = None\<rparr>,
      UpdateSheetStatus a (status_message ''Rendering grid values'')] @
     (if None = (None :: Sheet option) then metadata_calls a else []) @
     (if has_calldata None then [] else [RenderCells])"
  let ?ys = "chain_progress cfg c a None @ chain_tail cfg env c a None"
  have tr: "load_trace cfg env st a = ?xs @ AppendSheet sh # ?ys"
    by (simp add: load_trace_chain[OF sc c] fs ms)
  have xs: "\<forall>e\<in>set ?xs. \<not> is_appendSheet e"
    using sync_events_facts[of _ a "''Rendering grid values''" None] by blast
  have ys: "\<forall>e\<in>set ?ys. \<not> is_appendSheet e"
    by (auto dest: chain_progress_progress[THEN is_progress_facts] chain_tail_facts)
  show ?thesis unfolding tr by (rule onsheet_one_append[OF xs ys])
qed

lemma onsheet_load_unresolved:
  assumes "filter is_appendSheet (load_trace cfg env st a) = []"
  shows "onsheet_sheets (run_events (load_trace cfg env st a) st) = onsheet_sheets st"
  using assms by (intro run_events_onsheet) (simp add: filter_empty_conv)

lemma find_sheet_cached: "find_sheet st_cached a = None"
  by (simp add: find_sheet_def st_cached_def)

lemma load_st_cached:
  "load cfg_small env_ok st_cached ''0x1'' =
     ([UpdateSheetStatus ''0x1'' \<lparr>loading = Some True, error = Some False, message = None\<rparr>,
       UpdateSheetStatus ''0x1'' \<lparr>loading = Some False, error = None, message = None\<rparr>], [])"
  by (rule load_cached)
     (simp_all add: env_ok_def already_loading_def cached_def st_cached_def)

lemma starts_chain_name_rejected: "starts_chain env_name_rejected st_fresh ''0x1''"
  by (simp add: starts_chain_def env_name_rejected_def st_fresh_def already_loading_def cached_def)

lemma metadata_name_rejected: "metadata_settled cfg env_name_rejected a = []"
  by (simp add: metadata_settled_def env_name_rejected_def)

lemma starts_chain_known: "starts_chain env_ok st_known ''0x1''"
  by (simp add: starts_chain_def env_ok_def st_known_def already_loading_def cached_def)

lemma find_sheet_known: "find_sheet st_known ''0x1'' \<noteq> None"
  by (simp add: find_sheet_def st_known_def)

lemma decode_small: "decode_result cfg_small [x] = Inr x"
  by (simp add: decode_result_def cfg_small_def)

subsection \<open>Resolving contract addresses\<close>

lemma resolved_in_bounds:
  assumes "grid cfg cells = Inr array" and "contractAddress cell < RC_BOUND cfg"
      and "j < length array" and "int j = contractAddress cell"
  shows "resolvedContractAddress cfg array cell = Inr (cell_value (array ! j))"
proof -
  from grid_Inr[OF assms(1)] assms(3) have "j < 2 ^ 32" by simp
  then have "int j < 2 ^ 32" by (metis of_nat_less_iff of_nat_numeral of_nat_power)
  also have "(2::int) ^ 32 < 2 ^ 53" by simp
  finally have "\<bar>contractAddress cell\<bar> < 2 ^ 53" using assms(4) by simp
  moreover have "nat (contractAddress cell) = j" using assms(4) by simp
  moreover have "0 \<le> contractAddress cell" using assms(4) by simp
  ultimately show ?thesis using assms(2,3)
    by (simp add: resolvedContractAddress_def toNumber_def)
qed

lemma resolved_literal:
  "\<not> contractAddress cell < RC_BOUND cfg \<Longrightarrow>
   resolvedContractAddress cfg array cell = Inr (contractAddress cell)"
  by (simp add: resolvedContractAddress_def)

lemma requests_resolved:
  "resolvedContractAddress cfg array cell = Inr v \<Longrightarrow>
   abi_request cfg array cell = [GetAbiForContract (bn2hex cfg v)] \<and>
   cell_with_abi cfg env array cell =
     (case getAbiForContract env (bn2hex cfg v) of
        Inl e \<Rightarrow> Inl e
      | Inr abi' \<Rightarrow> Inr (cell\<lparr>abi := abi' (bn2hex cfg (selector cell))\<rparr>))"
  by (simp add: abi_request_def cell_with_abi_def)

lemma resolution_cases:
  assumes "grid cfg cells = Inr array"
  shows "(contractAddress cell < RC_BOUND cfg \<longrightarrow>
            (\<forall>j<length array. int j = contractAddress cell \<longrightarrow>
               resolvedContractAddress cfg array cell = Inr (cell_value (array ! j)) \<and>
               abi_request cfg array cell =
                 [GetAbiForContract (bn2hex cfg (cell_value (array ! j)))] \<and>
               cell_with_abi cfg env array cell =
                 (case getAbiForContract env (bn2hex cfg (cell_value (array ! j))) of
                    Inl e \<Rightarrow> Inl e
                  | Inr abi' \<Rightarrow> Inr (cell\<lparr>abi := abi' (bn2hex cfg (selector cell))\<rparr>)))) \<and>
         (\<not> contractAddress cell < RC_BOUND cfg \<longrightarrow>
            resolvedContractAddress cfg array cell = Inr (contractAddress cell) \<and>
            abi_request cfg array cell = [GetAbiForContract (bn2hex cfg (contractAddress cell))] \<and>
            cell_with_abi cfg env array cell =
              (case getAbiForContract env (bn2hex cfg (contractAddress cell)) of
                 Inl e \<Rightarrow> Inl e
               | Inr abi' \<Rightarrow> Inr (cell\<lparr>abi := abi' (bn2hex cfg (selector cell))\<rparr>)))"
proof (intro conjI impI allI)
  fix j
  assume h: "contractAddress cell < RC_BOUND cfg" "j < length array" "int j = contractAddress cell"
  have r: "resolvedContractAddress cfg array cell = Inr (cell_value (array ! j))"
    using assms(1) h by (rule resolved_in_bounds)
  then show "resolvedContractAddress cfg array cell = Inr (cell_value (array ! j))" .
  from requests_resolved[OF r, of env]
  show "abi_request cfg array cell = [GetAbiForContract (bn2hex cfg (cell_value (array ! j)))]"
    and "cell_with_abi cfg env array cell =
          (case getAbiForContract env (bn2hex cfg (cell_value (array ! j))) of
             Inl e \<Rightarrow> Inl e
           | Inr abi' \<Rightarrow> Inr (cell\<lparr>abi := abi' (bn2hex cfg (selector cell))\<rparr>))"
    by simp_all
next
  assume h: "\<not> contractAddress cell < RC_BOUND cfg"
  have r: "resolvedContractAddress cfg array cell = Inr (contractAddress cell)"
    using h by (rule resolved_literal)
  then show "resolvedContractAddress cfg array cell = Inr (contractAddress cell)" .
  from requests_resolved[OF r, of env]
  show "abi_request cfg array cell = [GetAbiForContract (bn2hex cfg (contractAddress cell))]"
    and "cell_with_abi cfg env array cell =
          (case getAbiForContract env (bn2hex cfg (contractAddress cell)) of
             Inl e \<Rightarrow> Inl e
           | Inr abi' \<Rightarrow> Inr (cell\<lparr>abi := abi' (bn2hex cfg (selector cell))\<rparr>))"
    by simp_all
qed

lemma upt_4: "[0..<4] = [0, 1, 2, 3::nat]"
  by (simp add: upt_conv_Cons)

lemma parseInt_1: "parseInt ''1'' = Some 1"
  by (simp add: parseInt_def is_whitespace_def is_digit_def digit_value_def digits_value_def)

lemma grid_small: "grid cfg_small [cell_one] = Inr array_small"
  by (simp add: grid_def Array_keys_def cfg_small_def upt_4 cells_by_id_def cell_one_def
      merge_cell_def array_small_def parseInt_1)

subsection \<open>The stored array\<close>

lemma setValues_in_trace:
  assumes "SetValues a' cs \<in> set (load_trace cfg env st a)"
  shows "starts_chain env st a \<and> a' = a \<and>
         (\<exists>c. contract env = Some c \<and> chain_result cfg env c (find_sheet st a) = Inr cs)"
proof -
  have sc: "starts_chain env st a"
  proof (rule ccontr)
    assume "\<not> starts_chain env st a"
    from no_chain_no_request[OF this assms] show False by (simp add: is_setValues_def)
  qed
  then obtain c where c: "contract env = Some c" by (auto simp: starts_chain_def)
  let ?sheet = "find_sheet st a"
  let ?sync = "[UpdateSheetStatus a \<lparr>loading = Some True, error = Some False, message = None\<rparr>,
      UpdateSheetStatus a (status_message ''Rendering grid values'')] @
     (if ?sheet = None then metadata_calls a else []) @
     (if has_calldata ?sheet then [] else [RenderCells])"
  from assms consider "SetValues a' cs \<in> set ?sync"
    | "SetValues a' cs \<in> set (metadata_settled cfg env a)"
    | "SetValues a' cs \<in> set (chain_progress cfg c a ?sheet)"
    | "SetValues a' cs \<in> set (chain_tail cfg env c a ?sheet)"
    unfolding load_trace_chain[OF sc c] by (auto split: if_splits)
  then have "a' = a \<and> chain_result cfg env c ?sheet = Inr cs"
  proof cases
    case 1
    from sync_events_facts[OF this] show ?thesis by (simp add: is_setValues_def)
  next
    case 2
    from metadata_settled_facts[OF this] show ?thesis by (simp add: is_setValues_def)
  next
    case 3
    from is_progress_facts[OF chain_progress_progress[OF this]] show ?thesis
      by (simp add: is_setValues_def)
  next
    case 4
    then show ?thesis by (auto simp: chain_tail_def split: sum.splits)
  qed
  with sc c show ?thesis by simp
qed

lemma chain_result_Inr:
  "chain_result cfg env c sheet = Inr cs \<Longrightarrow>
   \<exists>cells. fetched c sheet = Inr cells \<and> finalized cfg env cells = Inr cs"
  by (auto simp: chain_result_def split: sum.splits)

lemma finalized_Inr_grid:
  "finalized cfg env cells = Inr cs \<Longrightarrow> \<exists>array. grid cfg cells = Inr array"
  by (auto simp: finalized_def split: sum.splits)

lemma rendered_cell_nth:
  "length cs = GRID_SIZE cfg \<Longrightarrow>
   rendered_cell cfg cs r c =
     (if c + N_COL cfg * r < GRID_SIZE cfg then Some (cs ! (c + N_COL cfg * r)) else None)"
  by (simp add: rendered_cell_def nth_opt_def)

lemma final_state_stored:
  assumes sc: "starts_chain env st a" and c: "contract env = Some c"
      and cr: "chain_result cfg env c (find_sheet st a) = Inr cs"
  shows "values_of (run_events (load_trace cfg env st a) st) = (values_of st)(a \<mapsto> cs)"
proof -
  let ?sheet = "find_sheet st a"
  let ?sync = "[UpdateSheetStatus a \<lparr>loading = Some True, error = Some False, message = None\<rparr>,
      UpdateSheetStatus a (status_message ''Rendering grid values'')] @
     (if ?sheet = None then metadata_calls a else []) @
     (if has_calldata ?sheet then [] else [RenderCells])"
  let ?pre = "?sync @ (if ?sheet = None then metadata_settled cfg env a else []) @
     chain_progress cfg c a ?sheet"
  let ?U = "UpdateSheetStatus a \<lparr>loading = Some False, error = Some False, message = Some []\<rparr>"
  have tr: "load_trace cfg env st a = ?pre @ [SetValues a cs, ?U]"
    by (simp add: load_trace_chain[OF sc c] chain_tail_def cr)
  have pre: "\<forall>e\<in>set ?pre. \<not> is_setValues e"
  proof
    fix e assume "e \<in> set ?pre"
    then consider "e \<in> set ?sync" | "e \<in> set (metadata_settled cfg env a)"
      | "e \<in> set (chain_progress cfg c a ?sheet)"
      by (auto split: if_splits)
    then show "\<not> is_setValues e"
    proof cases
      case 1 then show ?thesis using sync_events_facts by blast
    next
      case 2 then show ?thesis using metadata_settled_facts by blast
    next
      case 3 then show ?thesis using chain_progress_progress is_progress_facts by blast
    qed
  qed
  have "values_of (run_events (?pre @ [SetValues a cs, ?U]) st) =
        (values_of (run_events ?pre st))(a \<mapsto> cs)"
    by (simp add: run_events_append run_events_Cons run_events_Nil updateSheetStatus_def
        setValues_def)
  with run_events_values[OF pre] tr show ?thesis by simp
qed

lemma final_status_not_loading:
  assumes "starts_chain env st a"
  shows "\<exists>s. appStatus_sheets (run_events (load_trace cfg env st a) st) a = Some s \<and>
              loading s = Some False"
proof -
  obtain pre m where tr: "load_trace cfg env st a =
      pre @ [UpdateSheetStatus a \<lparr>loading = Some False, error = Some False, message = Some m\<rparr>]"
    using load_trace_last[OF assms] by blast
  show ?thesis unfolding tr
    using status_after_update[of pre a
        "\<lparr>loading = Some False, error = Some False, message = Some m\<rparr>" st]
    by auto
qed

lemma stored_cells_of_run:
  assumes "contract env = Some c" and "fetched c (find_sheet st a) = Inr cells"
      and "grid cfg cells = Inr array"
      and "SetValues a' cs \<in> set (load_trace cfg env st a)"
  shows "\<forall>i<length array. cell_with_abi cfg env array (array ! i) = Inr (cs ! i)"
proof (intro allI impI)
  fix i assume i: "i < length array"
  from setValues_in_trace[OF assms(4)] assms(1)
  have "chain_result cfg env c (find_sheet st a) = Inr cs" by auto
  then have fin: "finalized cfg env cells = Inr cs"
    by (simp add: chain_result_def assms(2))
  from grid_Inr[OF assms(3)] i have "i < GRID_SIZE cfg" by simp
  from finalized_Inr_nth[OF fin assms(3) this]
  show "cell_with_abi cfg env array (array ! i) = Inr (cs ! i)" .
qed

subsection \<open>Placeholders\<close>

lemma default_cell_fields:
  "cell_id (default_cell cfg i) = toString i \<and> owner (default_cell cfg i) = 0 \<and>
   cell_value (default_cell cfg i) = 0 \<and> contractAddress (default_cell cfg i) = RC_BOUND cfg \<and>
   selector (default_cell cfg i) = 0 \<and> calldata (default_cell cfg i) = []"
  by (simp add: default_cell_def merge_cell_def defaultRenderedCell_def defaultCellData_def)

lemma stored_default:
  assumes fin: "finalized cfg env cells = Inr cs" and i: "i < GRID_SIZE cfg"
      and absent: "\<forall>x\<in>set cells. parseInt (cell_id x) \<noteq> Some (int i)"
  shows "cell_id (cs ! i) = toString i \<and> owner (cs ! i) = 0 \<and> cell_value (cs ! i) = 0 \<and>
         contractAddress (cs ! i) = RC_BOUND cfg \<and> selector (cs ! i) = 0 \<and>
         calldata (cs ! i) = [] \<and>
         (\<exists>abi'. getAbiForContract env (bn2hex cfg (RC_BOUND cfg)) = Inr abi' \<and>
                 abi (cs ! i) = abi' (bn2hex cfg 0))"
proof -
  from finalized_Inr_grid[OF fin] obtain array where g: "grid cfg cells = Inr array" by blast
  from grid_Inr[OF g] i cells_by_id_absent[OF absent]
  have d: "array ! i = default_cell cfg i" by simp
  have w: "cell_with_abi cfg env array (default_cell cfg i) = Inr (cs ! i)"
    using finalized_Inr_nth[OF fin g i] d by simp
  have r: "resolvedContractAddress cfg array (default_cell cfg i) = Inr (RC_BOUND cfg)"
    using resolved_literal[of "default_cell cfg i" cfg array] by (simp add: default_cell_fields)
  from w requests_resolved[OF r, of env]
  have "\<exists>abi'. getAbiForContract env (bn2hex cfg (RC_BOUND cfg)) = Inr abi' \<and>
                 abi (cs ! i) = abi' (bn2hex cfg 0)"
  proof (cases "getAbiForContract env (bn2hex cfg (RC_BOUND cfg))")
    case (Inl e)
    with w requests_resolved[OF r, of env] show ?thesis by simp
  next
    case (Inr abi')
    with w requests_resolved[OF r, of env]
    have "cs ! i = (default_cell cfg i)\<lparr>abi := abi' (bn2hex cfg 0)\<rparr>"
      by (simp add: default_cell_fields)
    then have "abi (cs ! i) = abi' (bn2hex cfg 0)" by simp
    with Inr show ?thesis by simp
  qed
  with cell_with_abi_fields[OF w] default_cell_fields[of cfg i] show ?thesis by simp
qed

lemma contract_env_ok: "contract env_ok = Some contract_one"
  by (simp add: env_ok_def)

lemma fetched_one: "fetched contract_one None = Inr [cell_one]"
  by (simp add: fetched_def has_calldata_def contract_one_def fetch_cell_def cell_one_def)

lemma finalized_small: "finalized cfg_small env_ok [cell_one] = Inr array_small"
  by (simp add: finalized_def grid_small)
     (simp add: array_small_def cell_with_abi_def resolvedContractAddress_def toNumber_def
        default_cell_def defaultRenderedCell_def defaultCellData_def merge_cell_def cell_one_def
        cfg_small_def env_ok_def)

lemma chain_result_small: "chain_result cfg_small env_ok contract_one None = Inr array_small"
  by (simp add: chain_result_def fetched_one finalized_small)

lemma stored_small:
  "SetValues ''0x1'' array_small \<in> set (load_trace cfg_small env_ok st_fresh ''0x1'')"
  by (simp add: load_trace_chain[OF starts_chain_fresh contract_env_ok] find_sheet_fresh
      chain_tail_def chain_result_small)

lemma parseInt_exp: "parseInt ''1e+21'' = Some 1"
  by (simp add: parseInt_def is_whitespace_def is_digit_def digit_value_def digits_value_def)

lemma toString_1: "toString 1 = ''1''"
  by (simp add: toString.simps digit_char_def)

lemma contract_env_exp: "contract env_exp = Some contract_exp"
  by (simp add: env_exp_def)

lemma starts_chain_exp: "starts_chain env_exp st_fresh ''0x1''"
  by (simp add: starts_chain_def env_exp_def st_fresh_def already_loading_def cached_def)

lemma fetched_exp: "fetched contract_exp None = Inr [cell_exp]"
  by (simp add: fetched_def has_calldata_def contract_exp_def fetch_cell_def cell_exp_def)

lemma grid_exp: "grid cfg_small [cell_exp] = Inr array_exp"
  by (simp add: grid_def Array_keys_def cfg_small_def upt_4 cells_by_id_def cell_exp_def
      merge_cell_def array_exp_def parseInt_exp)

lemma finalized_exp: "finalized cfg_small env_exp [cell_exp] = Inr array_exp"
  by (simp add: finalized_def grid_exp)
     (simp add: array_exp_def cell_with_abi_def resolvedContractAddress_def toNumber_def
        default_cell_def defaultRenderedCell_def defaultCellData_def merge_cell_def cell_exp_def
        cfg_small_def env_exp_def)

lemma chain_result_exp: "chain_result cfg_small env_exp contract_exp None = Inr array_exp"
  by (simp add: chain_result_def fetched_exp finalized_exp)

subsection \<open>References outside the grid\<close>

lemma resolved_out_of_bounds:
  assumes "grid cfg cells = Inr array" and "contractAddress cell < RC_BOUND cfg"
      and "\<not> (0 \<le> contractAddress cell \<and> contractAddress cell < int (GRID_SIZE cfg))"
  shows "\<exists>e. resolvedContractAddress cfg array cell = Inl e"
proof -
  from grid_Inr[OF assms(1)] have len: "length array = GRID_SIZE cfg" by simp
  show ?thesis
  proof (cases "\<bar>contractAddress cell\<bar> < 2 ^ 53")
    case True
    have "\<not> (0 \<le> contractAddress cell \<and> nat (contractAddress cell) < length array)"
      using assms(3) len by auto
    with True assms(2) show ?thesis
      by (simp add: resolvedContractAddress_def toNumber_def)
  next
    case False
    with assms(2) show ?thesis by (simp add: resolvedContractAddress_def toNumber_def)
  qed
qed

lemma resolved_all_in_bounds:
  assumes g: "grid cfg cells = Inr array"
      and inb: "contractAddress cell < RC_BOUND cfg \<longrightarrow>
                0 \<le> contractAddress cell \<and> contractAddress cell < int (GRID_SIZE cfg)"
  shows "\<exists>v. resolvedContractAddress cfg array cell = Inr v"
proof (cases "contractAddress cell < RC_BOUND cfg")
  case True
  with inb have b: "0 \<le> contractAddress cell" "contractAddress cell < int (GRID_SIZE cfg)" by simp_all
  from grid_Inr[OF g] have len: "length array = GRID_SIZE cfg" by simp
  have "nat (contractAddress cell) < length array" "int (nat (contractAddress cell)) = contractAddress cell"
    using b len by simp_all
  from resolved_in_bounds[OF g True this] show ?thesis by blast
next
  case False
  then show ?thesis by (simp add: resolved_literal)
qed

lemma failed_chain_trace:
  assumes sc: "starts_chain env st a" and c: "contract env = Some c"
      and cr: "chain_result cfg env c (find_sheet st a) = Inl e"
  shows "Navigate ''/'' \<in> set (load_trace cfg env st a) \<and>
         (\<forall>a' cs. SetValues a' cs \<notin> set (load_trace cfg env st a)) \<and>
         values_of (run_events (load_trace cfg env st a) st) = values_of st"
proof -
  have nav: "Navigate ''/'' \<in> set (load_trace cfg env st a)"
    by (simp add: load_trace_chain[OF sc c] chain_tail_def cr)
  have nos: "\<forall>a' cs. SetValues a' cs \<notin> set (load_trace cfg env st a)"
  proof (intro allI notI)
    fix a' cs assume "SetValues a' cs \<in> set (load_trace cfg env st a)"
    from setValues_in_trace[OF this] c cr show False by simp
  qed
  have "\<forall>ev\<in>set (load_trace cfg env st a). \<not> is_setValues ev"
  proof
    fix ev assume m: "ev \<in> set (load_trace cfg env st a)"
    show "\<not> is_setValues ev"
    proof (cases ev)
      case (SetValues a' cs)
      with m nos show ?thesis by simp
    qed (simp_all add: is_setValues_def)
  qed
  from run_events_values[OF this] nav nos show ?thesis by simp
qed

lemma starts_chain_oob: "starts_chain env_oob st_fresh ''0x1''"
  by (simp add: starts_chain_def env_oob_def st_fresh_def already_loading_def cached_def)

lemma contract_env_oob: "contract env_oob = Some contract_oob"
  by (simp add: env_oob_def)

lemma fetched_oob: "fetched contract_oob (find_sheet st_fresh ''0x1'') = Inr [cell_oob]"
  by (simp add: fetched_def has_calldata_def contract_oob_def fetch_cell_def cell_oob_def
      find_sheet_fresh)

lemma grid_oob: "grid cfg_small [cell_oob] = Inr array_oob"
  by (simp add: grid_def Array_keys_def cfg_small_def upt_4 cells_by_id_def cell_oob_def
      merge_cell_def array_oob_def parseInt_1)

lemma fetched_one_fresh: "fetched contract_one (find_sheet st_fresh ''0x1'') = Inr [cell_one]"
  by (simp add: find_sheet_fresh fetched_one)

section \<open>The claims\<close>

text \<open>
  Claim C1. In a run of \<open>load\<close> that has fetched the cells and built the grid array, the
  ABI lookups that \<open>load\<close> issues are, in grid order, one for each cell whose address
  resolves, and the cells it stores are the grid cells with the ABI of their lookup. For
  every cell of the grid array: when its contract address is below \<open>RC_BOUND\<close>, the
  address looked up is the computed value of the cell whose grid index equals that
  contract address (one level of indirection, read from the array before any ABI is
  attached); otherwise it is the contract address itself.
\<close>

theorem C1_abi_lookup_address:
  assumes "starts_chain env st a" and "contract env = Some c"
      and "fetched c (find_sheet st a) = Inr cells" and "grid cfg cells = Inr array"
  shows "filter is_getAbiForContract (load_trace cfg env st a) =
           concat (map (abi_request cfg array) array) \<and>
         (\<forall>a' cs. SetValues a' cs \<in> set (load_trace cfg env st a) \<longrightarrow>
            (\<forall>i<length array. cell_with_abi cfg env array (array ! i) = Inr (cs ! i))) \<and>
         (\<forall>cell\<in>set array.
            (contractAddress cell < RC_BOUND cfg \<longrightarrow>
               (\<forall>j<length array. int j = contractAddress cell \<longrightarrow>
                  resolvedContractAddress cfg array cell = Inr (cell_value (array ! j)) \<and>
                  abi_request cfg array cell =
                    [GetAbiForContract (bn2hex cfg (cell_value (array ! j)))] \<and>
                  cell_with_abi cfg env array cell =
                    (case getAbiForContract env (bn2hex cfg (cell_value (array ! j))) of
                       Inl e \<Rightarrow> Inl e
                     | Inr abi' \<Rightarrow> Inr (cell\<lparr>abi := abi' (bn2hex cfg (selector cell))\<rparr>)))) \<and>
            (\<not> contractAddress cell < RC_BOUND cfg \<longrightarrow>
               resolvedContractAddress cfg array cell = Inr (contractAddress cell) \<and>
               abi_request cfg array cell =
                 [GetAbiForContract (bn2hex cfg (contractAddress cell))] \<and>
               cell_with_abi cfg env array cell =
                 (case getAbiForContract env (bn2hex cfg (contractAddress cell)) of
                    Inl e \<Rightarrow> Inl e
                  | Inr abi' \<Rightarrow> Inr (cell\<lparr>abi := abi' (bn2hex cfg (selector cell))\<rparr>))))"
proof (intro conjI)
  show "filter is_getAbiForContract (load_trace cfg env st a) =
           concat (map (abi_request cfg array) array)"
    using assms by (rule abi_lookups_of_run)
  show "\<forall>a' cs. SetValues a' cs \<in> set (load_trace cfg env st a) \<longrightarrow>
            (\<forall>i<length array. cell_with_abi cfg env array (array ! i) = Inr (cs ! i))"
    using stored_cells_of_run[OF assms(2,3,4)] by blast
  show "\<forall>cell\<in>set array.
            (contractAddress cell < RC_BOUND cfg \<longrightarrow>
               (\<forall>j<length array. int j = contractAddress cell \<longrightarrow>
                  resolvedContractAddress cfg array cell = Inr (cell_value (array ! j)) \<and>
                  abi_request cfg array cell =
                    [GetAbiForContract (bn2hex cfg (cell_value (array ! j)))] \<and>
                  cell_with_abi cfg env array cell =
                    (case getAbiForContract env (bn2hex cfg (cell_value (array ! j))) of
                       Inl e \<Rightarrow> Inl e
                     | Inr abi' \<Rightarrow> Inr (cell\<lparr>abi := abi' (bn2hex cfg (selector cell))\<rparr>)))) \<and>
            (\<not> contractAddress cell < RC_BOUND cfg \<longrightarrow>
               resolvedContractAddress cfg array cell = Inr (contractAddress cell) \<and>
               abi_request cfg array cell =
                 [GetAbiForContract (bn2hex cfg (contractAddress cell))] \<and>
               cell_with_abi cfg env array cell =
                 (case getAbiForContract env (bn2hex cfg (contractAddress cell)) of
                    Inl e \<Rightarrow> Inl e
                  | Inr abi' \<Rightarrow> Inr (cell\<lparr>abi := abi' (bn2hex cfg (selector cell))\<rparr>)))"
    using resolution_cases[OF assms(4)] by blast
qed

theorem C1_abi_lookup_address_witness:
  "starts_chain env_ok st_fresh ''0x1'' \<and> contract env_ok = Some contract_one \<and>
   fetched contract_one (find_sheet st_fresh ''0x1'') = Inr [cell_one] \<and>
   grid cfg_small [cell_one] = Inr array_small \<and>
   filter is_getAbiForContract (load_trace cfg_small env_ok st_fresh ''0x1'') =
     [GetAbiForContract ''0x100000000000000000000000000000000'', GetAbiForContract ''0x7'',
      GetAbiForContract ''0x100000000000000000000000000000000'',
      GetAbiForContract ''0x100000000000000000000000000000000''] \<and>
   cell_one \<in> set array_small \<and>
   contractAddress cell_one < RC_BOUND cfg_small \<and> 1 < length array_small \<and>
   int 1 = contractAddress cell_one \<and>
   resolvedContractAddress cfg_small array_small cell_one = Inr 7 \<and>
   abi_request cfg_small array_small cell_one = [GetAbiForContract ''0x7''] \<and>
   default_cell cfg_small 0 \<in> set array_small \<and>
   \<not> contractAddress (default_cell cfg_small 0) < RC_BOUND cfg_small \<and>
   resolvedContractAddress cfg_small array_small (default_cell cfg_small 0) = Inr (2 ^ 128)"
proof -
  have m: "cell_one \<in> set array_small" "default_cell cfg_small 0 \<in> set array_small"
    by (simp_all add: array_small_def)
  have f: "contractAddress cell_one < RC_BOUND cfg_small" "1 < length array_small"
      "int 1 = contractAddress cell_one" "cell_value (array_small ! 1) = 7"
      "\<not> contractAddress (default_cell cfg_small 0) < RC_BOUND cfg_small"
      "contractAddress (default_cell cfg_small 0) = 2 ^ 128"
      "bn2hex cfg_small 7 = ''0x7''"
    by (simp_all add: cell_one_def merge_cell_def cfg_small_def array_small_def default_cell_def
        defaultCellData_def)
  have fe: "fetched contract_one (find_sheet st_fresh ''0x1'') = Inr [cell_one]"
    by (simp add: find_sheet_fresh fetched_def has_calldata_def contract_one_def fetch_cell_def
        cell_one_def)
  have ce: "contract env_ok = Some contract_one" by (simp add: env_ok_def)
  note c1 = C1_abi_lookup_address[OF starts_chain_fresh ce fe grid_small]
  from c1 m(1) f(1,2,3) have one:
    "resolvedContractAddress cfg_small array_small cell_one = Inr (cell_value (array_small ! 1)) \<and>
     abi_request cfg_small array_small cell_one =
       [GetAbiForContract (bn2hex cfg_small (cell_value (array_small ! 1)))]"
    by blast
  from c1 m(2) f(5) have lit:
    "resolvedContractAddress cfg_small array_small (default_cell cfg_small 0) =
       Inr (contractAddress (default_cell cfg_small 0))"
    by blast
  have reqs: "concat (map (abi_request cfg_small array_small) array_small) =
     [GetAbiForContract ''0x100000000000000000000000000000000'', GetAbiForContract ''0x7'',
      GetAbiForContract ''0x100000000000000000000000000000000'',
      GetAbiForContract ''0x100000000000000000000000000000000'']"
    by (simp add: array_small_def abi_request_def resolvedContractAddress_def toNumber_def
        default_cell_def defaultRenderedCell_def defaultCellData_def merge_cell_def cell_one_def
        cfg_small_def)
  from c1 reqs have tr:
    "filter is_getAbiForContract (load_trace cfg_small env_ok st_fresh ''0x1'') =
     [GetAbiForContract ''0x100000000000000000000000000000000'', GetAbiForContract ''0x7'',
      GetAbiForContract ''0x100000000000000000000000000000000'',
      GetAbiForContract ''0x100000000000000000000000000000000'']"
    by simp
  from one lit tr f m starts_chain_fresh ce fe grid_small show ?thesis by simp
qed

text \<open>
  Claim C2. Whenever \<open>load\<close> stores a cell array (an event \<open>SetValues\<close> of its run), it
  stores it under the address it was called with and the array has exactly \<open>GRID_SIZE\<close>
  entries, whatever cells were fetched (none, few or many). The cell rendered at row \<open>r\<close>
  and column \<open>c\<close> is the entry at index \<open>c + N_COL * r\<close>. After the run the shared values
  hold this array for the address, and the component renders \<open>N_ROW\<close> rows of \<open>N_COL\<close>
  cells from it.
\<close>

theorem C2_stored_array_grid_size:
  assumes "SetValues a' cs \<in> set (load_trace cfg env st a)"
  shows "a' = a \<and> length cs = GRID_SIZE cfg \<and>
         (\<forall>r c. rendered_cell cfg cs r c =
            (if c + N_COL cfg * r < GRID_SIZE cfg then Some (cs ! (c + N_COL cfg * r)) else None)) \<and>
         values_of (run_events (load_trace cfg env st a) st) a = Some cs \<and>
         SheetTable cfg (run_events (load_trace cfg env st a) st) a =
           Some (map (\<lambda>rowIndex. map (rendered_cell cfg cs rowIndex) [0..<N_COL cfg])
                   [0..<N_ROW cfg])"
proof -
  from setValues_in_trace[OF assms] obtain c where
    sc: "starts_chain env st a" and a: "a' = a" and c: "contract env = Some c" and
    cr: "chain_result cfg env c (find_sheet st a) = Inr cs"
    by blast
  from chain_result_Inr[OF cr] obtain cells where "finalized cfg env cells = Inr cs" by blast
  then have len: "length cs = GRID_SIZE cfg" by (rule finalized_Inr_length)
  let ?fin = "run_events (load_trace cfg env st a) st"
  have v: "values_of ?fin a = Some cs"
    by (simp add: final_state_stored[OF sc c cr])
  from final_status_not_loading[OF sc, of cfg] obtain s where
    s: "appStatus_sheets ?fin a = Some s" "loading s = Some False"
    by blast
  from sc have ne: "a \<noteq> []" by (simp add: starts_chain_def)
  have "SheetTable cfg ?fin a =
           Some (map (\<lambda>rowIndex. map (rendered_cell cfg cs rowIndex) [0..<N_COL cfg])
                   [0..<N_ROW cfg])"
    by (simp add: SheetTable_def ne s v len)
  with a len v rendered_cell_nth[OF len] show ?thesis by simp
qed

theorem C2_stored_array_grid_size_witness:
  "SetValues ''0x1'' array_small \<in> set (load_trace cfg_small env_ok st_fresh ''0x1'') \<and>
   length array_small = GRID_SIZE cfg_small \<and>
   rendered_cell cfg_small array_small 1 0 = Some (array_small ! (0 + N_COL cfg_small * 1)) \<and>
   values_of (run_events (load_trace cfg_small env_ok st_fresh ''0x1'') st_fresh) ''0x1'' =
     Some array_small \<and>
   SheetTable cfg_small (run_events (load_trace cfg_small env_ok st_fresh ''0x1'') st_fresh) ''0x1'' =
     Some (map (\<lambda>rowIndex. map (rendered_cell cfg_small array_small rowIndex)
                  [0..<N_COL cfg_small]) [0..<N_ROW cfg_small])"
proof -
  have b: "0 + N_COL cfg_small * 1 < GRID_SIZE cfg_small" by (simp add: cfg_small_def)
  note c2 = C2_stored_array_grid_size[OF stored_small]
  from c2 have "rendered_cell cfg_small array_small 1 0 =
      (if 0 + N_COL cfg_small * 1 < GRID_SIZE cfg_small
       then Some (array_small ! (0 + N_COL cfg_small * 1)) else None)"
    by blast
  with b have "rendered_cell cfg_small array_small 1 0 =
      Some (array_small ! (0 + N_COL cfg_small * 1))"
    by (simp only: if_True)
  with c2 stored_small show ?thesis by blast
qed

text \<open>
  Claim C3 says that every failure of the fetch chain flags the sheet's status as
  errored. The code at a failing input: the sheet contract rejects \<^verbatim>\<open>renderCells\<close>, the
  chain fails, the \<^verbatim>\<open>catch\<close> callback navigates, and the \<^verbatim>\<open>finally\<close> callback updates
  the status with \<open>error\<close> false, which is what the status holds after the run.
\<close>

theorem C3_error_flag_stays_false:
  "chain_result cfg_small env_rejecting contract_rejecting (find_sheet st_fresh ''0x1'') =
     Inl Rejected \<and>
   load_trace cfg_small env_rejecting st_fresh ''0x1'' =
     [UpdateSheetStatus ''0x1'' \<lparr>loading = Some True, error = Some False, message = None\<rparr>,
      UpdateSheetStatus ''0x1'' (status_message ''Rendering grid values''),
      CallContract ''0x1'' ''name'', CallContract ''0x1'' ''symbol'', RenderCells,
      AppendSheet \<lparr>name = ''name'', symbol = ''symbol'', address = ''0x1'', sheet_calldata = None\<rparr>,
      Navigate ''/'',
      UpdateSheetStatus ''0x1''
        \<lparr>loading = Some False, error = Some False, message = Some (error_message ''0x1'')\<rparr>] \<and>
   appStatus_sheets (run_events (load_trace cfg_small env_rejecting st_fresh ''0x1'') st_fresh)
     ''0x1'' =
     Some \<lparr>loading = Some False, error = Some False, message = Some (error_message ''0x1'')\<rparr>"
proof -
  have ms: "metadata_settled cfg_small env_rejecting ''0x1'' =
      [AppendSheet \<lparr>name = ''name'', symbol = ''symbol'', address = ''0x1'', sheet_calldata = None\<rparr>]"
    by (rule metadata_settled_resolved[where rn = "[''name'']" and rs = "[''symbol'']"])
       (simp_all add: env_rejecting_def decode_small)
  have pr: "chain_progress cfg_small contract_rejecting ''0x1'' None = []"
    by (simp add: chain_progress_def fetched_events_def fetched_def has_calldata_def
        contract_rejecting_def)
  have tr: "load_trace cfg_small env_rejecting st_fresh ''0x1'' =
     [UpdateSheetStatus ''0x1'' \<lparr>loading = Some True, error = Some False, message = None\<rparr>,
      UpdateSheetStatus ''0x1'' (status_message ''Rendering grid values''),
      CallContract ''0x1'' ''name'', CallContract ''0x1'' ''symbol'', RenderCells,
      AppendSheet \<lparr>name = ''name'', symbol = ''symbol'', address = ''0x1'', sheet_calldata = None\<rparr>,
      Navigate ''/'',
      UpdateSheetStatus ''0x1''
        \<lparr>loading = Some False, error = Some False, message = Some (error_message ''0x1'')\<rparr>]"
    using chain_result_rejecting
    by (simp add: load_trace_chain[OF starts_chain_rejecting contract_env_rejecting]
        find_sheet_fresh ms pr chain_tail_def metadata_calls_def has_calldata_def)
  have "appStatus_sheets (run_events (load_trace cfg_small env_rejecting st_fresh ''0x1'') st_fresh)
     ''0x1'' =
     Some \<lparr>loading = Some False, error = Some False, message = Some (error_message ''0x1'')\<rparr>"
    unfolding tr
    by (simp add: run_events_def updateSheetStatus_def merge_status_def appendSheet_def
        status_message_def no_status_def st_fresh_def)
  with tr chain_result_rejecting show ?thesis by simp
qed

text \<open>
  Claim C4. When the cell chain of \<open>load\<close> fails, the run ends with a navigation to
  the route \<open>/\<close> followed by the status update of the \<^verbatim>\<open>finally\<close> callback; there is no
  other navigation. The message of that update, and of the sheet's status after the run,
  is the fixed text written out below, with the sheet address in it; the route after the
  run is \<open>/\<close>. Nothing is fetched twice: the requests of the whole run are the two
  metadata calls (for an unknown sheet), one \<^verbatim>\<open>renderCells\<close>, one \<^verbatim>\<open>getCell\<close> for each
  rendered cell, and at most one ABI lookup for each cell of the grid, each issued
  before the failure is caught.
\<close>

theorem C4_failure_navigates_home:
  assumes "starts_chain env st a" and "contract env = Some c"
      and "chain_result cfg env c (find_sheet st a) = Inl e"
  shows "\<exists>pre p. load_trace cfg env st a = pre @ [Navigate ''/'', UpdateSheetStatus a p] \<and>
           (\<forall>ev\<in>set pre. \<not> is_navigate ev) \<and>
           message p =
             Some (''Error: Starksheet cannot render sheet at address '' @ a @
                   [CHR 0x0A] @ ''              <br />'' @
                   [CHR 0x0A] @ ''              <br />'' @
                   [CHR 0x0A] @
                   ''              Double check address or create a new sheet by clicking on the + button'') \<and>
           route (run_events (load_trace cfg env st a) st) = ''/'' \<and>
           (\<exists>s. appStatus_sheets (run_events (load_trace cfg env st a) st) a = Some s \<and>
                message s =
                  Some (''Error: Starksheet cannot render sheet at address '' @ a @
                        [CHR 0x0A] @ ''              <br />'' @
                        [CHR 0x0A] @ ''              <br />'' @
                        [CHR 0x0A] @
                        ''              Double check address or create a new sheet by clicking on the + button'')) \<and>
           filter is_request (load_trace cfg env st a) =
             (if find_sheet st a = None
              then [CallContract a ''name'', CallContract a ''symbol''] else []) @
             (if has_calldata (find_sheet st a) then []
              else RenderCells #
                (case renderCells c of
                   Inl e \<Rightarrow> []
                 | Inr renderedCells \<Rightarrow>
                     map (\<lambda>cell. GetCell (CellRendered.cell_id cell)) renderedCells)) @
             (case fetched c (find_sheet st a) of
                Inl e \<Rightarrow> []
              | Inr cells \<Rightarrow>
                  (case grid cfg cells of
                     Inl e \<Rightarrow> []
                   | Inr array \<Rightarrow> concat (map (abi_request cfg array) array))) \<and>
           (\<forall>array cell. length (abi_request cfg array cell) \<le> 1)"
proof -
  let ?sheet = "find_sheet st a"
  let ?sync = "[UpdateSheetStatus a \<lparr>loading = Some True, error = Some False, message = None\<rparr>,
      UpdateSheetStatus a (status_message ''Rendering grid values'')] @
     (if ?sheet = None then metadata_calls a else []) @
     (if has_calldata ?sheet then [] else [RenderCells])"
  let ?pre = "?sync @ (if ?sheet = None then metadata_settled cfg env a else []) @
     chain_progress cfg c a ?sheet"
  let ?p = "\<lparr>loading = Some False, error = Some False, message = Some (error_message a)\<rparr>"
  have tr: "load_trace cfg env st a = ?pre @ [Navigate ''/'', UpdateSheetStatus a ?p]"
    by (simp add: load_trace_chain[OF assms(1,2)] chain_tail_def assms(3))
  have nonav: "\<forall>ev\<in>set ?pre. \<not> is_navigate ev"
  proof
    fix ev assume "ev \<in> set ?pre"
    then consider "ev \<in> set ?sync" | "ev \<in> set (metadata_settled cfg env a)"
      | "ev \<in> set (chain_progress cfg c a ?sheet)"
      by (auto split: if_splits)
    then show "\<not> is_navigate ev"
    proof cases
      case 1 then show ?thesis using sync_events_facts by blast
    next
      case 2 then show ?thesis using metadata_settled_facts by blast
    next
      case 3 then show ?thesis using chain_progress_progress is_progress_facts by blast
    qed
  qed
  have tr': "load_trace cfg env st a = (?pre @ [Navigate ''/'']) @ [UpdateSheetStatus a ?p]"
    by (simp add: tr)
  have route: "route (run_events (load_trace cfg env st a) st) = ''/''"
    unfolding tr
    by (simp add: run_events_append run_events_Cons run_events_Nil route_updateSheetStatus)
  have status: "\<exists>s. appStatus_sheets (run_events (load_trace cfg env st a) st) a = Some s \<and>
                message s = Some (error_message a)"
    unfolding tr' using status_after_update[of "?pre @ [Navigate ''/'']" a ?p st] by auto
  have em: "error_message a =
      ''Error: Starksheet cannot render sheet at address '' @ a @
      [CHR 0x0A] @ ''              <br />'' @
      [CHR 0x0A] @ ''              <br />'' @
      [CHR 0x0A] @
      ''              Double check address or create a new sheet by clicking on the + button''"
    by (simp only: error_message_def)
  from tr nonav route status
  have part: "\<exists>pre p. load_trace cfg env st a = pre @ [Navigate ''/'', UpdateSheetStatus a p] \<and>
           (\<forall>ev\<in>set pre. \<not> is_navigate ev) \<and>
           message p = Some (error_message a) \<and>
           route (run_events (load_trace cfg env st a) st) = ''/'' \<and>
           (\<exists>s. appStatus_sheets (run_events (load_trace cfg env st a) st) a = Some s \<and>
                message s = Some (error_message a))"
    by (intro exI[of _ ?pre] exI[of _ ?p]) simp
  note req = requests_of_run[OF assms(1,2), of cfg]
  from part req abi_request_length show ?thesis
    unfolding em[symmetric] by blast
qed

theorem C4_failure_navigates_home_witness:
  "starts_chain env_rejecting st_fresh ''0x1'' \<and>
   contract env_rejecting = Some contract_rejecting \<and>
   chain_result cfg_small env_rejecting contract_rejecting (find_sheet st_fresh ''0x1'') = Inl Rejected \<and>
   route (run_events (load_trace cfg_small env_rejecting st_fresh ''0x1'') st_fresh) = ''/'' \<and>
   (\<exists>s. appStatus_sheets (run_events (load_trace cfg_small env_rejecting st_fresh ''0x1'') st_fresh)
          ''0x1'' = Some s \<and>
        message s =
          Some (''Error: Starksheet cannot render sheet at address '' @ ''0x1'' @
                [CHR 0x0A] @ ''              <br />'' @
                [CHR 0x0A] @ ''              <br />'' @
                [CHR 0x0A] @
                ''              Double check address or create a new sheet by clicking on the + button'')) \<and>
   filter is_request (load_trace cfg_small env_rejecting st_fresh ''0x1'') =
     [CallContract ''0x1'' ''name'', CallContract ''0x1'' ''symbol'', RenderCells]"
proof -
  note c4 = C4_failure_navigates_home[OF starts_chain_rejecting contract_env_rejecting
      chain_result_rejecting]
  have f: "fetched contract_rejecting None = Inl Rejected"
    by (simp add: fetched_def has_calldata_def contract_rejecting_def)
  have rc: "renderCells contract_rejecting = Inl Rejected"
    by (simp add: contract_rejecting_def)
  have r: "(if find_sheet st_fresh ''0x1'' = None
            then [CallContract ''0x1'' ''name'', CallContract ''0x1'' ''symbol''] else []) @
           (if has_calldata (find_sheet st_fresh ''0x1'') then []
            else RenderCells #
              (case renderCells contract_rejecting of
                 Inl e \<Rightarrow> []
               | Inr renderedCells \<Rightarrow>
                   map (\<lambda>cell. GetCell (CellRendered.cell_id cell)) renderedCells)) @
           (case fetched contract_rejecting (find_sheet st_fresh ''0x1'') of
              Inl e \<Rightarrow> []
            | Inr cells \<Rightarrow>
                (case grid cfg_small cells of
                   Inl e \<Rightarrow> []
                 | Inr array \<Rightarrow> concat (map (abi_request cfg_small array) array))) =
           [CallContract ''0x1'' ''name'', CallContract ''0x1'' ''symbol'', RenderCells]"
    using f by (simp add: find_sheet_fresh has_calldata_def rc)
  from c4 starts_chain_rejecting contract_env_rejecting chain_result_rejecting
  show ?thesis unfolding r by blast
qed

text \<open>
  Claim C5, as stated, fails. An address that is not in the sheet list but has a non-empty
  cell array in the shared values: \<open>load\<close> runs (it updates the status) and calls no
  contract. And for an unknown address whose \<^verbatim>\<open>name\<close> call is rejected, the two calls are
  issued but no sheet is appended.
\<close>

theorem C5_counterexample:
  "find_sheet st_cached ''0x1'' = None \<and>
   fst (load cfg_small env_ok st_cached ''0x1'') \<noteq> [] \<and>
   filter is_callContract (load_trace cfg_small env_ok st_cached ''0x1'') = [] \<and>
   find_sheet st_fresh ''0x1'' = None \<and>
   filter is_callContract (load_trace cfg_small env_name_rejected st_fresh ''0x1'') =
     [CallContract ''0x1'' ''name'', CallContract ''0x1'' ''symbol''] \<and>
   filter is_appendSheet (load_trace cfg_small env_name_rejected st_fresh ''0x1'') = []"
proof -
  have "filter is_callContract (load_trace cfg_small env_ok st_cached ''0x1'') = []"
    by (simp add: load_trace_def load_st_cached is_callContract_def)
  moreover have "fst (load cfg_small env_ok st_cached ''0x1'') \<noteq> []"
    by (simp add: load_st_cached)
  moreover have
    "filter is_callContract (load_trace cfg_small env_name_rejected st_fresh ''0x1'') =
       [CallContract ''0x1'' ''name'', CallContract ''0x1'' ''symbol'']"
    by (simp add: filter_callContract_chain[OF starts_chain_name_rejected] find_sheet_fresh)
  moreover have
    "filter is_appendSheet (load_trace cfg_small env_name_rejected st_fresh ''0x1'') = []"
    by (simp add: filter_appendSheet_chain[OF starts_chain_name_rejected] metadata_name_rejected)
  ultimately show ?thesis
    by (simp add: find_sheet_cached find_sheet_fresh)
qed

text \<open>
  Claim C5, amended. When \<open>load\<close> gets past its guards and the cache check for an
  address that is not in the sheet list, it issues exactly two contract calls to that
  address, \<^verbatim>\<open>name\<close> then \<^verbatim>\<open>symbol\<close>; once both resolve and their results decode, one
  sheet with the decoded name and symbol and the address is appended to the list; when
  one of the calls is rejected nothing is appended. When the address is in the sheet
  list, no contract call of this kind is made and nothing is appended.
\<close>

theorem C5_metadata_lookup:
  "(starts_chain env st a \<and> find_sheet st a = None \<longrightarrow>
      filter is_callContract (load_trace cfg env st a) =
        [CallContract a ''name'', CallContract a ''symbol''] \<and>
      (\<forall>rn rs n s.
         callContract env a ''name'' = Inr rn \<and> callContract env a ''symbol'' = Inr rs \<and>
         decode_result cfg rn = Inr n \<and> decode_result cfg rs = Inr s \<longrightarrow>
         filter is_appendSheet (load_trace cfg env st a) =
           [AppendSheet \<lparr>name = n, symbol = s, address = a, sheet_calldata = None\<rparr>] \<and>
         onsheet_sheets (run_events (load_trace cfg env st a) st) =
           onsheet_sheets st @ [\<lparr>name = n, symbol = s, address = a, sheet_calldata = None\<rparr>]) \<and>
      ((\<exists>e. callContract env a ''name'' = Inl e) \<or> (\<exists>e. callContract env a ''symbol'' = Inl e) \<longrightarrow>
         filter is_appendSheet (load_trace cfg env st a) = [] \<and>
         onsheet_sheets (run_events (load_trace cfg env st a) st) = onsheet_sheets st)) \<and>
   (find_sheet st a \<noteq> None \<longrightarrow>
      filter is_callContract (load_trace cfg env st a) = [] \<and>
      filter is_appendSheet (load_trace cfg env st a) = [] \<and>
      onsheet_sheets (run_events (load_trace cfg env st a) st) = onsheet_sheets st)"
proof (intro conjI impI allI)
  assume h: "starts_chain env st a \<and> find_sheet st a = None"
  then show "filter is_callContract (load_trace cfg env st a) =
        [CallContract a ''name'', CallContract a ''symbol'']"
    by (simp add: filter_callContract_chain)
next
  fix rn rs n s
  assume h: "starts_chain env st a \<and> find_sheet st a = None"
    and r: "callContract env a ''name'' = Inr rn \<and> callContract env a ''symbol'' = Inr rs \<and>
         decode_result cfg rn = Inr n \<and> decode_result cfg rs = Inr s"
  from r have ms: "metadata_settled cfg env a =
      [AppendSheet \<lparr>name = n, symbol = s, address = a, sheet_calldata = None\<rparr>]"
    by (simp add: metadata_settled_resolved)
  from h ms show "filter is_appendSheet (load_trace cfg env st a) =
           [AppendSheet \<lparr>name = n, symbol = s, address = a, sheet_calldata = None\<rparr>]"
    by (simp add: filter_appendSheet_chain)
  from h ms show "onsheet_sheets (run_events (load_trace cfg env st a) st) =
           onsheet_sheets st @ [\<lparr>name = n, symbol = s, address = a, sheet_calldata = None\<rparr>]"
    by (simp add: onsheet_load_resolved)
next
  assume h: "starts_chain env st a \<and> find_sheet st a = None"
    and r: "(\<exists>e. callContract env a ''name'' = Inl e) \<or> (\<exists>e. callContract env a ''symbol'' = Inl e)"
  from h metadata_settled_rejected[OF r, of cfg]
  show f: "filter is_appendSheet (load_trace cfg env st a) = []"
    by (simp add: filter_appendSheet_chain)
  then show "onsheet_sheets (run_events (load_trace cfg env st a) st) = onsheet_sheets st"
    by (rule onsheet_load_unresolved)
next
  assume k: "find_sheet st a \<noteq> None"
  show "filter is_callContract (load_trace cfg env st a) = []"
  proof (cases "starts_chain env st a")
    case True with k show ?thesis by (auto simp: filter_callContract_chain)
  next
    case False then show ?thesis by (intro filter_none) (blast dest: no_chain_no_request)
  qed
  show f: "filter is_appendSheet (load_trace cfg env st a) = []"
  proof (cases "starts_chain env st a")
    case True with k show ?thesis by (auto simp: filter_appendSheet_chain)
  next
    case False then show ?thesis by (intro filter_none) (blast dest: no_chain_no_request)
  qed
  then show "onsheet_sheets (run_events (load_trace cfg env st a) st) = onsheet_sheets st"
    by (rule onsheet_load_unresolved)
qed

theorem C5_metadata_lookup_witness:
  "starts_chain env_ok st_fresh ''0x1'' \<and> find_sheet st_fresh ''0x1'' = None \<and>
   filter is_callContract (load_trace cfg_small env_ok st_fresh ''0x1'') =
     [CallContract ''0x1'' ''name'', CallContract ''0x1'' ''symbol''] \<and>
   callContract env_ok ''0x1'' ''name'' = Inr [''name''] \<and>
   callContract env_ok ''0x1'' ''symbol'' = Inr [''symbol''] \<and>
   decode_result cfg_small [''name''] = Inr ''name'' \<and>
   decode_result cfg_small [''symbol''] = Inr ''symbol'' \<and>
   onsheet_sheets (run_events (load_trace cfg_small env_ok st_fresh ''0x1'') st_fresh) =
     onsheet_sheets st_fresh @
     [\<lparr>name = ''name'', symbol = ''symbol'', address = ''0x1'', sheet_calldata = None\<rparr>] \<and>
   starts_chain env_name_rejected st_fresh ''0x1'' \<and>
   (\<exists>e. callContract env_name_rejected ''0x1'' ''name'' = Inl e) \<and>
   filter is_appendSheet (load_trace cfg_small env_name_rejected st_fresh ''0x1'') = [] \<and>
   find_sheet st_known ''0x1'' \<noteq> None \<and>
   filter is_callContract (load_trace cfg_small env_ok st_known ''0x1'') = []"
proof -
  have c: "callContract env_ok ''0x1'' ''name'' = Inr [''name'']"
      "callContract env_ok ''0x1'' ''symbol'' = Inr [''symbol'']"
    by (simp_all add: env_ok_def)
  have r: "\<exists>e. callContract env_name_rejected ''0x1'' ''name'' = Inl e"
    by (simp add: env_name_rejected_def)
  from C5_metadata_lookup[of env_ok st_fresh "''0x1''" cfg_small]
    C5_metadata_lookup[of env_name_rejected st_fresh "''0x1''" cfg_small]
    C5_metadata_lookup[of env_ok st_known "''0x1''" cfg_small]
    starts_chain_fresh find_sheet_fresh[of "''0x1''"] c r decode_small starts_chain_name_rejected
    find_sheet_known
  show ?thesis by blast
qed




text \<open>
  Claim C7, as stated, fails. A sheet with a non-empty cell array in the shared values
  whose status is already flagged as loading: \<open>load\<close> returns at its guard, and the
  loading flag is still true afterwards.
\<close>

theorem C7_counterexample:
  "cached st_busy ''0x1'' \<and>
   load cfg_small env_ok st_busy ''0x1'' = ([], []) \<and>
   appStatus_sheets (run_events (load_trace cfg_small env_ok st_busy ''0x1'') st_busy) ''0x1'' =
     Some \<lparr>loading = Some True, error = Some False, message = None\<rparr>"
proof -
  have l: "load cfg_small env_ok st_busy ''0x1'' = ([], [])"
    by (rule already_loading_load) (rule already_loading_busy)
  have c: "cached st_busy ''0x1''"
    by (simp add: cached_def st_busy_def)
  have "appStatus_sheets st_busy ''0x1'' =
      Some \<lparr>loading = Some True, error = Some False, message = None\<rparr>"
    by (simp add: st_busy_def)
  with l c show ?thesis by (simp add: load_trace_def run_events_Nil)
qed

text \<open>
  Claim C7, amended. When the shared values hold a non-empty cell array for the address,
  \<open>load\<close> issues no request and leaves the stored array of every address as it was; and
  when it gets past its guards (the address is not empty, the contract is available, the
  sheet is not flagged as loading) it sets the loading flag to true and back to false
  and returns, so the flag is false afterwards.
\<close>

theorem C7_cache_hit:
  assumes "cached st a"
  shows "filter is_request (load_trace cfg env st a) = [] \<and>
         values_of (run_events (load_trace cfg env st a) st) = values_of st \<and>
         (a \<noteq> [] \<and> contract env \<noteq> None \<and> \<not> already_loading st a \<longrightarrow>
            load cfg env st a =
              ([UpdateSheetStatus a \<lparr>loading = Some True, error = Some False, message = None\<rparr>,
                UpdateSheetStatus a \<lparr>loading = Some False, error = None, message = None\<rparr>], []) \<and>
            (\<exists>s. appStatus_sheets (run_events (load_trace cfg env st a) st) a = Some s \<and>
                 loading s = Some False))"
proof -
  have ns: "\<not> starts_chain env st a" using assms by (rule cached_not_started)
  have "\<exists>s. appStatus_sheets (run_events (load_trace cfg env st a) st) a = Some s \<and>
            loading s = Some False"
    if g: "a \<noteq> []" "contract env \<noteq> None" "\<not> already_loading st a"
  proof -
    let ?U1 = "UpdateSheetStatus a \<lparr>loading = Some True, error = Some False, message = None\<rparr>"
    let ?p = "\<lparr>loading = Some False, error = None, message = None\<rparr>"
    have "load_trace cfg env st a = [?U1] @ [UpdateSheetStatus a ?p]"
      by (simp add: load_trace_def load_cached[OF g assms])
    with status_after_update[of "[?U1]" a ?p st] show ?thesis by auto
  qed
  with filter_request_none[OF ns] values_not_started[OF ns] load_cached[OF _ _ _ assms]
  show ?thesis by blast
qed

theorem C7_cache_hit_witness:
  "cached st_cached ''0x1'' \<and>
   filter is_request (load_trace cfg_small env_ok st_cached ''0x1'') = [] \<and>
   values_of (run_events (load_trace cfg_small env_ok st_cached ''0x1'') st_cached) =
     values_of st_cached \<and>
   ''0x1'' \<noteq> [] \<and> contract env_ok \<noteq> None \<and> \<not> already_loading st_cached ''0x1'' \<and>
   (\<exists>s. appStatus_sheets (run_events (load_trace cfg_small env_ok st_cached ''0x1'') st_cached)
          ''0x1'' = Some s \<and> loading s = Some False)"
proof -
  have g: "''0x1'' \<noteq> []" "contract env_ok \<noteq> None" "\<not> already_loading st_cached ''0x1''"
    by (simp_all add: env_ok_def already_loading_def st_cached_def)
  with C7_cache_hit[OF cached_st_cached, of cfg_small env_ok] cached_st_cached
  show ?thesis by blast
qed

text \<open>
  Claim C8, as stated, fails. The grid is keyed by \<^verbatim>\<open>parseInt(cell.id.toString())\<close>, not
  by the id: one fetched cell with the id \<open>10 ^ 21\<close>, which prints as \<^verbatim>\<open>1e+21\<close>, is stored at
  index 1, although no fetched cell has the id 1.
\<close>

theorem C8_counterexample:
  "fetched contract_exp (find_sheet st_fresh ''0x1'') = Inr [cell_exp] \<and>
   cell_id cell_exp = ''1e+21'' \<and> cell_id cell_exp \<noteq> toString 1 \<and>
   SetValues ''0x1'' array_exp \<in> set (load_trace cfg_small env_exp st_fresh ''0x1'') \<and>
   1 < GRID_SIZE cfg_small \<and>
   array_exp ! 1 = cell_exp \<and> owner (array_exp ! 1) = 5 \<and> cell_value (array_exp ! 1) = 7"
proof -
  have "SetValues ''0x1'' array_exp \<in> set (load_trace cfg_small env_exp st_fresh ''0x1'')"
    by (simp add: load_trace_chain[OF starts_chain_exp contract_env_exp] find_sheet_fresh
        chain_tail_def chain_result_exp)
  moreover have "cell_id cell_exp = ''1e+21''" "owner cell_exp = 5" "cell_value cell_exp = 7"
    by (simp_all add: cell_exp_def merge_cell_def)
  moreover have "cell_id cell_exp \<noteq> toString 1"
    unfolding toString_1 by (simp add: cell_exp_def merge_cell_def)
  moreover have "array_exp ! 1 = cell_exp" by (simp add: array_exp_def)
  moreover have "1 < GRID_SIZE cfg_small" by (simp add: cfg_small_def)
  ultimately show ?thesis by (simp add: find_sheet_fresh fetched_exp)
qed

text \<open>
  Claim C8, amended. When \<open>load\<close> stores a cell array, then for every grid index \<open>i\<close> below
  \<open>GRID_SIZE\<close> that is the value of \<^verbatim>\<open>parseInt(id.toString())\<close> for no fetched cell, the entry
  at index \<open>i\<close> is the placeholder: id \<open>i\<close>, owner 0, value 0, contract address \<open>RC_BOUND\<close>,
  selector 0, no calldata. Its contract address is not below \<open>RC_BOUND\<close>, so it is used
  literally: the ABI attached to the entry is the one looked up for \<open>RC_BOUND\<close> itself, at
  selector 0. (An id that is a grid index parses to itself.)
\<close>

theorem C8_default_placeholder:
  assumes "SetValues a' cs \<in> set (load_trace cfg env st a)"
  shows "(\<exists>c cells. contract env = Some c \<and> fetched c (find_sheet st a) = Inr cells \<and>
           (\<forall>i<GRID_SIZE cfg. (\<forall>x\<in>set cells. parseInt (cell_id x) \<noteq> Some (int i)) \<longrightarrow>
              cell_id (cs ! i) = toString i \<and> owner (cs ! i) = 0 \<and> cell_value (cs ! i) = 0 \<and>
              contractAddress (cs ! i) = RC_BOUND cfg \<and> selector (cs ! i) = 0 \<and>
              calldata (cs ! i) = [] \<and>
              \<not> contractAddress (cs ! i) < RC_BOUND cfg \<and>
              (\<exists>abi'. getAbiForContract env (bn2hex cfg (RC_BOUND cfg)) = Inr abi' \<and>
                      abi (cs ! i) = abi' (bn2hex cfg 0)))) \<and>
         (\<forall>i. parseInt (toString i) = Some (int i))"
proof -
  from setValues_in_trace[OF assms] obtain c where
    c: "contract env = Some c" and cr: "chain_result cfg env c (find_sheet st a) = Inr cs"
    by blast
  from chain_result_Inr[OF cr] obtain cells where
    f: "fetched c (find_sheet st a) = Inr cells" and fin: "finalized cfg env cells = Inr cs"
    by blast
  have "\<forall>i<GRID_SIZE cfg. (\<forall>x\<in>set cells. parseInt (cell_id x) \<noteq> Some (int i)) \<longrightarrow>
              cell_id (cs ! i) = toString i \<and> owner (cs ! i) = 0 \<and> cell_value (cs ! i) = 0 \<and>
              contractAddress (cs ! i) = RC_BOUND cfg \<and> selector (cs ! i) = 0 \<and>
              calldata (cs ! i) = [] \<and>
              \<not> contractAddress (cs ! i) < RC_BOUND cfg \<and>
              (\<exists>abi'. getAbiForContract env (bn2hex cfg (RC_BOUND cfg)) = Inr abi' \<and>
                      abi (cs ! i) = abi' (bn2hex cfg 0))"
    using stored_default[OF fin] by auto
  with c f parseInt_toString show ?thesis by blast
qed

theorem C8_default_placeholder_witness:
  "SetValues ''0x1'' array_small \<in> set (load_trace cfg_small env_ok st_fresh ''0x1'') \<and>
   fetched contract_one (find_sheet st_fresh ''0x1'') = Inr [cell_one] \<and>
   0 < GRID_SIZE cfg_small \<and> parseInt (cell_id cell_one) \<noteq> Some (int 0) \<and>
   cell_id (array_small ! 0) = toString 0 \<and> owner (array_small ! 0) = 0 \<and>
   cell_value (array_small ! 0) = 0 \<and> contractAddress (array_small ! 0) = RC_BOUND cfg_small \<and>
   selector (array_small ! 0) = 0 \<and> calldata (array_small ! 0) = []"
proof -
  from C8_default_placeholder[OF stored_small] obtain c cells where
    c: "contract env_ok = Some c" and f: "fetched c (find_sheet st_fresh ''0x1'') = Inr cells"
    and d: "\<forall>i<GRID_SIZE cfg_small. (\<forall>x\<in>set cells. parseInt (cell_id x) \<noteq> Some (int i)) \<longrightarrow>
              cell_id (array_small ! i) = toString i \<and> owner (array_small ! i) = 0 \<and>
              cell_value (array_small ! i) = 0 \<and>
              contractAddress (array_small ! i) = RC_BOUND cfg_small \<and>
              selector (array_small ! i) = 0 \<and> calldata (array_small ! i) = []"
    by blast
  from c have "c = contract_one" by (simp add: contract_env_ok)
  with f have cells: "cells = [cell_one]" by (simp add: find_sheet_fresh fetched_one)
  have g: "0 < GRID_SIZE cfg_small" by (simp add: cfg_small_def)
  have a: "parseInt (cell_id cell_one) \<noteq> Some (int 0)"
    by (simp add: cell_one_def merge_cell_def parseInt_1)
  then have a': "\<forall>x\<in>set cells. parseInt (cell_id x) \<noteq> Some (int 0)"
    by (simp add: cells)
  have f': "fetched contract_one (find_sheet st_fresh ''0x1'') = Inr [cell_one]"
    by (simp add: find_sheet_fresh fetched_one)
  from d g a' have "cell_id (array_small ! 0) = toString 0 \<and> owner (array_small ! 0) = 0 \<and>
              cell_value (array_small ! 0) = 0 \<and>
              contractAddress (array_small ! 0) = RC_BOUND cfg_small \<and>
              selector (array_small ! 0) = 0 \<and> calldata (array_small ! 0) = []"
    by blast
  with a f' g stored_small show ?thesis by simp
qed

text \<open>
  Claim C9. Every \<open>load\<close> that starts the cell chain ends, when the chain settles, with
  an update of the sheet's status that sets \<open>loading\<close> to false, whether the chain has
  succeeded or failed: this update is the last event of the run, and in the state after
  the run the sheet is not flagged as loading.
\<close>

theorem C9_loading_cleared:
  assumes "starts_chain env st a"
  shows "\<exists>pre p. load_trace cfg env st a = pre @ [UpdateSheetStatus a p] \<and>
           loading p = Some False \<and>
           (\<exists>s. appStatus_sheets (run_events (load_trace cfg env st a) st) a = Some s \<and>
                loading s = Some False) \<and>
           \<not> already_loading (run_events (load_trace cfg env st a) st) a"
proof -
  obtain pre m where tr: "load_trace cfg env st a =
      pre @ [UpdateSheetStatus a \<lparr>loading = Some False, error = Some False, message = Some m\<rparr>]"
    using load_trace_last[OF assms] by blast
  let ?p = "\<lparr>loading = Some False, error = Some False, message = Some m\<rparr>"
  have fin: "run_events (load_trace cfg env st a) st = updateSheetStatus a ?p (run_events pre st)"
    by (simp add: tr run_events_append run_events_Cons run_events_Nil)
  obtain s where s: "appStatus_sheets (run_events (load_trace cfg env st a) st) a = Some s"
      "loading s = Some False"
    using updateSheetStatus_sets[of a ?p "run_events pre st"] fin by auto
  then have "\<not> already_loading (run_events (load_trace cfg env st a) st) a"
    by (simp add: already_loading_def)
  with tr s show ?thesis by auto
qed

theorem C9_loading_cleared_witness:
  "starts_chain env_ok st_fresh ''0x1'' \<and>
   (\<exists>pre p. load_trace cfg_small env_ok st_fresh ''0x1'' = pre @ [UpdateSheetStatus ''0x1'' p] \<and>
      loading p = Some False) \<and>
   \<not> already_loading (run_events (load_trace cfg_small env_ok st_fresh ''0x1'') st_fresh) ''0x1''"
  using C9_loading_cleared[OF starts_chain_fresh, of cfg_small] starts_chain_fresh by blast

text \<open>
  Claim C10. Once the cells are fetched and the grid array is built: if a cell of the grid
  has a contract address below \<open>RC_BOUND\<close> that is not a grid index (negative, or
  \<open>GRID_SIZE\<close> or more), resolving that cell fails, the chain fails, the run navigates to
  \<open>/\<close>, stores no cell array and leaves the shared values as they were. If every contract
  address below \<open>RC_BOUND\<close> is a grid index, every cell resolves, and the chain can only
  fail through an ABI lookup that is rejected.
\<close>

theorem C10_out_of_bounds_reference:
  assumes "starts_chain env st a" and "contract env = Some c"
      and "fetched c (find_sheet st a) = Inr cells" and "grid cfg cells = Inr array"
  shows "((\<exists>cell\<in>set array. contractAddress cell < RC_BOUND cfg \<and>
             \<not> (0 \<le> contractAddress cell \<and> contractAddress cell < int (GRID_SIZE cfg))) \<longrightarrow>
            (\<forall>cell\<in>set array. contractAddress cell < RC_BOUND cfg \<and>
               \<not> (0 \<le> contractAddress cell \<and> contractAddress cell < int (GRID_SIZE cfg)) \<longrightarrow>
               (\<exists>e. resolvedContractAddress cfg array cell = Inl e)) \<and>
            (\<exists>e. chain_result cfg env c (find_sheet st a) = Inl e) \<and>
            Navigate ''/'' \<in> set (load_trace cfg env st a) \<and>
            (\<forall>a' cs. SetValues a' cs \<notin> set (load_trace cfg env st a)) \<and>
            values_of (run_events (load_trace cfg env st a) st) = values_of st) \<and>
         ((\<forall>cell\<in>set array. contractAddress cell < RC_BOUND cfg \<longrightarrow>
             0 \<le> contractAddress cell \<and> contractAddress cell < int (GRID_SIZE cfg)) \<longrightarrow>
            (\<forall>cell\<in>set array. \<exists>v. resolvedContractAddress cfg array cell = Inr v) \<and>
            (\<forall>e. chain_result cfg env c (find_sheet st a) = Inl e \<longrightarrow>
               (\<exists>cell\<in>set array. \<exists>v. resolvedContractAddress cfg array cell = Inr v \<and>
                  getAbiForContract env (bn2hex cfg v) = Inl e)))"
proof (intro conjI impI)
  assume "\<exists>cell\<in>set array. contractAddress cell < RC_BOUND cfg \<and>
             \<not> (0 \<le> contractAddress cell \<and> contractAddress cell < int (GRID_SIZE cfg))"
  then obtain cell where m: "cell \<in> set array" and b: "contractAddress cell < RC_BOUND cfg"
    and o: "\<not> (0 \<le> contractAddress cell \<and> contractAddress cell < int (GRID_SIZE cfg))"
    by blast
  show all: "\<forall>cell\<in>set array. contractAddress cell < RC_BOUND cfg \<and>
               \<not> (0 \<le> contractAddress cell \<and> contractAddress cell < int (GRID_SIZE cfg)) \<longrightarrow>
               (\<exists>e. resolvedContractAddress cfg array cell = Inl e)"
    using resolved_out_of_bounds[OF assms(4)] by blast
  from resolved_out_of_bounds[OF assms(4) b o] obtain e' where
    "resolvedContractAddress cfg array cell = Inl e'" by blast
  then have "cell_with_abi cfg env array cell = Inl e'" by (simp add: cell_with_abi_def)
  with m have "Inl e' \<in> set (map (cell_with_abi cfg env array) array)" by force
  from promise_all_has_Inl[OF this] obtain e where
    "promise_all (map (cell_with_abi cfg env array) array) = Inl e" by blast
  then have cr: "chain_result cfg env c (find_sheet st a) = Inl e"
    by (simp add: chain_result_def assms(3) finalized_def assms(4))
  then show "\<exists>e. chain_result cfg env c (find_sheet st a) = Inl e" by blast
  from failed_chain_trace[OF assms(1,2) cr]
  show "Navigate ''/'' \<in> set (load_trace cfg env st a)"
    and "\<forall>a' cs. SetValues a' cs \<notin> set (load_trace cfg env st a)"
    and "values_of (run_events (load_trace cfg env st a) st) = values_of st"
    by simp_all
next
  assume inb: "\<forall>cell\<in>set array. contractAddress cell < RC_BOUND cfg \<longrightarrow>
             0 \<le> contractAddress cell \<and> contractAddress cell < int (GRID_SIZE cfg)"
  show res: "\<forall>cell\<in>set array. \<exists>v. resolvedContractAddress cfg array cell = Inr v"
    using resolved_all_in_bounds[OF assms(4)] inb by blast
  show "\<forall>e. chain_result cfg env c (find_sheet st a) = Inl e \<longrightarrow>
               (\<exists>cell\<in>set array. \<exists>v. resolvedContractAddress cfg array cell = Inr v \<and>
                  getAbiForContract env (bn2hex cfg v) = Inl e)"
  proof (intro allI impI)
    fix e assume "chain_result cfg env c (find_sheet st a) = Inl e"
    then have "promise_all (map (cell_with_abi cfg env array) array) = Inl e"
      by (simp add: chain_result_def assms(3) finalized_def assms(4))
    from promise_all_Inl_elem[OF this] obtain cell where
      m: "cell \<in> set array" and w: "cell_with_abi cfg env array cell = Inl e"
      by auto
    from res m obtain v where v: "resolvedContractAddress cfg array cell = Inr v" by blast
    from w requests_resolved[OF v, of env] have "getAbiForContract env (bn2hex cfg v) = Inl e"
      by (cases "getAbiForContract env (bn2hex cfg v)") simp_all
    with m v show "\<exists>cell\<in>set array. \<exists>v. resolvedContractAddress cfg array cell = Inr v \<and>
                  getAbiForContract env (bn2hex cfg v) = Inl e"
      by blast
  qed
qed

theorem C10_out_of_bounds_reference_witness:
  "starts_chain env_oob st_fresh ''0x1'' \<and> contract env_oob = Some contract_oob \<and>
   fetched contract_oob (find_sheet st_fresh ''0x1'') = Inr [cell_oob] \<and>
   grid cfg_small [cell_oob] = Inr array_oob \<and>
   cell_oob \<in> set array_oob \<and> contractAddress cell_oob < RC_BOUND cfg_small \<and>
   \<not> (0 \<le> contractAddress cell_oob \<and> contractAddress cell_oob < int (GRID_SIZE cfg_small)) \<and>
   (\<exists>e. resolvedContractAddress cfg_small array_oob cell_oob = Inl e) \<and>
   (\<exists>e. chain_result cfg_small env_oob contract_oob (find_sheet st_fresh ''0x1'') = Inl e) \<and>
   Navigate ''/'' \<in> set (load_trace cfg_small env_oob st_fresh ''0x1'') \<and>
   values_of (run_events (load_trace cfg_small env_oob st_fresh ''0x1'') st_fresh) =
     values_of st_fresh \<and>
   starts_chain env_ok st_fresh ''0x1'' \<and> contract env_ok = Some contract_one \<and>
   fetched contract_one (find_sheet st_fresh ''0x1'') = Inr [cell_one] \<and>
   grid cfg_small [cell_one] = Inr array_small \<and>
   cell_one \<in> set array_small \<and> contractAddress cell_one < RC_BOUND cfg_small \<and>
   0 \<le> contractAddress cell_one \<and> contractAddress cell_one < int (GRID_SIZE cfg_small) \<and>
   (\<exists>v. resolvedContractAddress cfg_small array_small cell_one = Inr v)"
proof -
  have m: "cell_oob \<in> set array_oob" by (simp add: array_oob_def)
  have b: "contractAddress cell_oob < RC_BOUND cfg_small"
      "\<not> (0 \<le> contractAddress cell_oob \<and> contractAddress cell_oob < int (GRID_SIZE cfg_small))"
    by (simp_all add: cell_oob_def merge_cell_def cfg_small_def)
  have inb: "\<forall>cell\<in>set array_small. contractAddress cell < RC_BOUND cfg_small \<longrightarrow>
      0 \<le> contractAddress cell \<and> contractAddress cell < int (GRID_SIZE cfg_small)"
    by (simp add: array_small_def default_cell_fields cell_one_def merge_cell_def cfg_small_def)
  note bad = C10_out_of_bounds_reference[OF starts_chain_oob contract_env_oob fetched_oob grid_oob]
  note good = C10_out_of_bounds_reference[OF starts_chain_fresh contract_env_ok fetched_one_fresh
      grid_small]
  from bad m b have "(\<exists>e. resolvedContractAddress cfg_small array_oob cell_oob = Inl e) \<and>
     (\<exists>e. chain_result cfg_small env_oob contract_oob (find_sheet st_fresh ''0x1'') = Inl e) \<and>
     Navigate ''/'' \<in> set (load_trace cfg_small env_oob st_fresh ''0x1'') \<and>
     values_of (run_events (load_trace cfg_small env_oob st_fresh ''0x1'') st_fresh) =
       values_of st_fresh"
    by blast
  moreover from good inb
  have "\<forall>cell\<in>set array_small. \<exists>v. resolvedContractAddress cfg_small array_small cell = Inr v"
    by blast
  moreover have m1: "cell_one \<in> set array_small" by (simp add: array_small_def)
  moreover have "contractAddress cell_one < RC_BOUND cfg_small" "0 \<le> contractAddress cell_one"
      "contractAddress cell_one < int (GRID_SIZE cfg_small)"
    by (simp_all add: cell_one_def merge_cell_def cfg_small_def)
  ultimately show ?thesis
    using starts_chain_oob contract_env_oob fetched_oob grid_oob m b starts_chain_fresh
      contract_env_ok fetched_one_fresh grid_small
    by blast
qed

end
